theory Spec2Isabelle
  imports
    Complex_Main
    "HOL-Library.AList"
    "HOL-Library.Char_ord"
    "HOL-Library.List_Lexorder"
    "HOL-Library.Multiset"
begin

section \<open>Dynamic values\<close>

text \<open>
  The host's schema-less value model (Go's \<^verbatim>\<open>any\<close> as produced by JSON decoding): null,
  booleans, numbers, strings, lists (\<^verbatim>\<open>[]any\<close>) and string-keyed maps
  (\<^verbatim>\<open>map[string]any\<close>). Numbers are carried opaquely; no function of \<^verbatim>\<open>util/lua/lua.go\<close>
  modelled here computes with them.

  A Go map is an association list read with \<^const>\<open>map_of\<close> and written with
  \<^const>\<open>AList.update\<close>. A \<^verbatim>\<open>for key := range m\<close> loop visits every key once, in an order the
  language leaves open; the model visits the keys in the order of the list.
\<close>

datatype jval =
    JNull
  | JBool bool
  | JNum real
  | JStr string
  | JList "jval list"
  | JMap "(string \<times> jval) list"

type_synonym jobject = "(string \<times> jval) list"

definition mapKeys :: "(string \<times> 'v) list \<Rightarrow> string list" where
  "mapKeys m = remdups (map fst m)"

definition mapEntries :: "(string \<times> 'v) list \<Rightarrow> (string \<times> 'v) list" where
  "mapEntries m = AList.clearjunk m"

text \<open>Go runtime panics that the modelled code can raise.\<close>

datatype panic =
    IndexOutOfRange nat nat
  | NilPointerDereference

section \<open>The cleaning pass of action execution\<close>

lemma map_of_size_less:
  "map_of obj key = Some v \<Longrightarrow> size v < size (JMap obj)"
  by (induction obj) (auto split: if_splits)

lemma nth_size_less:
  "i < length obj \<Longrightarrow> size (obj ! i) < size (JList obj)"
proof (induction obj arbitrary: i)
  case Nil
  then show ?case by simp
next
  case (Cons a obj)
  show ?case
  proof (cases i)
    case 0
    then show ?thesis by simp
  next
    case (Suc j)
    with Cons.prems have "j < length obj" by simp
    from Cons.IH[OF this] Suc show ?thesis by simp
  qed
qed

lemma size_map_of_JMap:
  "map_of (obj :: jobject) key = Some (JMap m) \<Longrightarrow>
     size_list (size_prod (\<lambda>x. 0) size) m < size_list (size_prod (\<lambda>x. 0) size) obj"
  using map_of_size_less[of obj key "JMap m"] by simp

lemma size_map_of_JList:
  "map_of (obj :: jobject) key = Some (JList xs) \<Longrightarrow>
     size_list size xs < size_list (size_prod (\<lambda>x. 0) size) obj"
  using map_of_size_less[of obj key "JList xs"] by simp

lemma size_nth_JMap:
  "\<not> length obj \<le> i \<Longrightarrow> obj ! i = JMap m \<Longrightarrow>
     size_list (size_prod (\<lambda>x. 0) size) m < size_list size obj"
  using nth_size_less[of i obj] by simp

lemma size_nth_JList:
  "\<not> length obj \<le> i \<Longrightarrow> obj ! i = JList xs \<Longrightarrow>
     size_list size xs < size_list size obj"
  using nth_size_less[of i obj] by simp

text \<open>
  \<^verbatim>\<open>cleanReturnedObj\<close> and \<^verbatim>\<open>cleanReturnedArray\<close> (lua.go, lines 274-324). Both mutate
  their first argument in place (\<^verbatim>\<open>mapToReturn := newObj\<close>, \<^verbatim>\<open>arrayToReturn := newObj\<close>), so
  every read of \<^verbatim>\<open>newObj\<close> inside the loop is a read of the map or slice as updated so
  far; the loop functions thread that value. \<^verbatim>\<open>cleanObjRange\<close> is the
  \<^verbatim>\<open>for key := range obj\<close> loop over the keys still to visit, \<^verbatim>\<open>cleanArrayRange\<close> the
  \<^verbatim>\<open>for i := range newObj\<close> loop from index \<^verbatim>\<open>i\<close> on. The slice read \<^verbatim>\<open>obj[i]\<close> in
  \<^verbatim>\<open>cleanReturnedArray\<close> is evaluated only when \<^verbatim>\<open>newObj[i]\<close> is a map or a list, and
  panics when \<^verbatim>\<open>i\<close> is not below \<^verbatim>\<open>len(obj)\<close>.
\<close>

function cleanReturnedObj :: "jobject \<Rightarrow> jobject \<Rightarrow> panic + jobject"
  and cleanObjRange :: "string list \<Rightarrow> jobject \<Rightarrow> jobject \<Rightarrow> panic + jobject"
  and cleanReturnedArray :: "jval list \<Rightarrow> jval list \<Rightarrow> panic + jval list"
  and cleanArrayRange :: "nat \<Rightarrow> jval list \<Rightarrow> jval list \<Rightarrow> panic + jval list"
where
  "cleanReturnedObj newObj obj = cleanObjRange (mapKeys obj) newObj obj"
| "cleanObjRange [] mapToReturn obj = Inr mapToReturn"
| "cleanObjRange (key # rest) mapToReturn obj =
     (case map_of mapToReturn key of
        None \<Rightarrow> cleanObjRange rest mapToReturn obj
      | Some newValueInterface \<Rightarrow>
         (case map_of obj key of
            None \<Rightarrow> cleanObjRange rest mapToReturn obj
          | Some oldValueInterface \<Rightarrow>
             (case newValueInterface of
                JMap newValue \<Rightarrow>
                  (case oldValueInterface of
                     JMap oldValue \<Rightarrow>
                       (case cleanReturnedObj newValue oldValue of
                          Inl p \<Rightarrow> Inl p
                        | Inr convertedMap \<Rightarrow>
                            cleanObjRange rest
                              (AList.update key (JMap convertedMap) mapToReturn) obj)
                   | _ \<Rightarrow> cleanObjRange rest mapToReturn obj)
              | JList newValue \<Rightarrow>
                  (case oldValueInterface of
                     JMap oldValue \<Rightarrow>
                       (if length newValue = 0
                        then cleanObjRange rest
                               (AList.update key (JMap oldValue) mapToReturn) obj
                        else cleanObjRange rest mapToReturn obj)
                   | JList oldValue \<Rightarrow>
                       (case cleanReturnedArray newValue oldValue of
                          Inl p \<Rightarrow> Inl p
                        | Inr newArray \<Rightarrow>
                            cleanObjRange rest
                              (AList.update key (JList newArray) mapToReturn) obj)
                   | _ \<Rightarrow> cleanObjRange rest mapToReturn obj)
              | _ \<Rightarrow> cleanObjRange rest mapToReturn obj)))"
| "cleanReturnedArray newObj obj = cleanArrayRange 0 newObj obj"
| "cleanArrayRange i arrayToReturn obj =
     (if length arrayToReturn \<le> i then Inr arrayToReturn
      else
        (case arrayToReturn ! i of
           JMap newValue \<Rightarrow>
             (if length obj \<le> i then Inl (IndexOutOfRange i (length obj))
              else
                (case obj ! i of
                   JMap oldValue \<Rightarrow>
                     (case cleanReturnedObj newValue oldValue of
                        Inl p \<Rightarrow> Inl p
                      | Inr convertedMap \<Rightarrow>
                          cleanArrayRange (Suc i)
                            (arrayToReturn[i := JMap convertedMap]) obj)
                 | _ \<Rightarrow> cleanArrayRange (Suc i) arrayToReturn obj))
         | JList newValue \<Rightarrow>
             (if length obj \<le> i then Inl (IndexOutOfRange i (length obj))
              else
                (case obj ! i of
                   JList oldValue \<Rightarrow>
                     (case cleanReturnedArray newValue oldValue of
                        Inl p \<Rightarrow> Inl p
                      | Inr convertedMap \<Rightarrow>
                          cleanArrayRange (Suc i)
                            (arrayToReturn[i := JList convertedMap]) obj)
                 | _ \<Rightarrow> cleanArrayRange (Suc i) arrayToReturn obj))
         | _ \<Rightarrow> cleanArrayRange (Suc i) arrayToReturn obj))"
  by pat_completeness auto
termination
  apply (relation "inv_image (less_than <*lex*> less_than <*lex*> less_than)
     (\<lambda>x. case x of
        Inl (Inl (newObj, obj)) \<Rightarrow> (size (JMap obj), Suc 0, 0)
      | Inl (Inr (keys, m, obj)) \<Rightarrow> (size (JMap obj), 0, length keys)
      | Inr (Inl (newObj, obj)) \<Rightarrow> (size (JList obj), Suc 0, 0)
      | Inr (Inr (i, arr, obj)) \<Rightarrow> (size (JList obj), 0, length arr - i))")
  apply (auto simp: size_map_of_JMap size_map_of_JList size_nth_JMap size_nth_JList)
  done

declare cleanObjRange.simps(2) [simp del]
declare cleanArrayRange.simps [simp del]
declare cleanReturnedObj.simps [simp del]
declare cleanReturnedArray.simps [simp del]

text \<open>
  What one pass of the type switch stores for a pair of new and old value: \<^verbatim>\<open>cleanValue\<close>
  for the switch of \<^verbatim>\<open>cleanReturnedObj\<close>, \<^verbatim>\<open>cleanElem\<close> for the switch of
  \<^verbatim>\<open>cleanReturnedArray\<close> at index \<^verbatim>\<open>i\<close>. They are derived from the two loops
  (\<open>cleanObjRange_step\<close>, \<open>cleanArrayRange_step\<close> below) and serve to state their results.
\<close>

definition cleanValue :: "jval \<Rightarrow> jval \<Rightarrow> panic + jval" where
  "cleanValue new old =
     (case new of
        JMap newValue \<Rightarrow>
          (case old of
             JMap oldValue \<Rightarrow> map_sum id JMap (cleanReturnedObj newValue oldValue)
           | _ \<Rightarrow> Inr new)
      | JList newValue \<Rightarrow>
          (case old of
             JMap oldValue \<Rightarrow> Inr (if newValue = [] then JMap oldValue else new)
           | JList oldValue \<Rightarrow> map_sum id JList (cleanReturnedArray newValue oldValue)
           | _ \<Rightarrow> Inr new)
      | _ \<Rightarrow> Inr new)"

definition cleanElem :: "jval \<Rightarrow> jval list \<Rightarrow> nat \<Rightarrow> panic + jval" where
  "cleanElem new obj i =
     (case new of
        JMap newValue \<Rightarrow>
          (if length obj \<le> i then Inl (IndexOutOfRange i (length obj))
           else (case obj ! i of
                   JMap oldValue \<Rightarrow> map_sum id JMap (cleanReturnedObj newValue oldValue)
                 | _ \<Rightarrow> Inr new))
      | JList newValue \<Rightarrow>
          (if length obj \<le> i then Inl (IndexOutOfRange i (length obj))
           else (case obj ! i of
                   JList oldValue \<Rightarrow> map_sum id JList (cleanReturnedArray newValue oldValue)
                 | _ \<Rightarrow> Inr new))
      | _ \<Rightarrow> Inr new)"

text \<open>
  Positions inside a value: a path of map keys and list indices. \<^verbatim>\<open>pairedPath\<close> walks the
  returned and the original value together for as long as the cleaning pass recurses, that
  is, while both are maps or both are lists.
\<close>

datatype step = Key string | Index nat

fun child :: "step \<Rightarrow> jval \<Rightarrow> jval option" where
  "child (Key k) (JMap m) = map_of m k"
| "child (Index i) (JList xs) = (if i < length xs then Some (xs ! i) else None)"
| "child _ _ = None"

fun getPath :: "step list \<Rightarrow> jval \<Rightarrow> jval option" where
  "getPath [] v = Some v"
| "getPath (s # p) v = (case child s v of None \<Rightarrow> None | Some c \<Rightarrow> getPath p c)"

fun sameShape :: "jval \<Rightarrow> jval \<Rightarrow> bool" where
  "sameShape (JMap n) (JMap m) = True"
| "sameShape (JList n) (JList m) = True"
| "sameShape _ _ = False"

fun pairedPath :: "step list \<Rightarrow> jval \<Rightarrow> jval \<Rightarrow> (jval \<times> jval) option" where
  "pairedPath [] new old = (if sameShape new old then Some (new, old) else None)"
| "pairedPath (s # p) new old =
     (if sameShape new old
      then (case child s new of
              None \<Rightarrow> None
            | Some a \<Rightarrow> (case child s old of None \<Rightarrow> None | Some b \<Rightarrow> pairedPath p a b))
      else None)"

section \<open>Errors, interpreter values and the libraries the code calls\<close>

text \<open>
  Errors are values. \<^verbatim>\<open>Wrapf msg e\<close> is \<^verbatim>\<open>fmt.Errorf(msg + ": %w", e)\<close>,
  \<^verbatim>\<open>WrapfQ msg arg e\<close> the same with one \<^verbatim>\<open>%q\<close> argument in the message,
  \<^verbatim>\<open>ErrorString\<close> is \<^verbatim>\<open>errors.New\<close>, and \<^verbatim>\<open>fmt.Errorf\<close> of a format without \<^verbatim>\<open>%w\<close>, by
  its text. The \<^verbatim>\<open>Json...\<close> constructors are
  the error types of \<^verbatim>\<open>encoding/json\<close>; \<^verbatim>\<open>JsonUnmarshalTypeError value field\<close> is a
  \<^verbatim>\<open>*json.UnmarshalTypeError\<close> with its \<^verbatim>\<open>Value\<close> and \<^verbatim>\<open>Field\<close>. \<^verbatim>\<open>LuaApiError\<close> is
  the interpreter's \<^verbatim>\<open>*lua.ApiError\<close> with its type, message and stack trace.
  \<^verbatim>\<open>RuntimePanic\<close> is not a returned error: it marks a call that ends in a Go panic.
\<close>

datatype apiErrorType =
    ApiErrorSyntax
  | ApiErrorFile
  | ApiErrorRun
  | ApiErrorError
  | ApiErrorPanic

datatype error =
    LuaApiError apiErrorType string string
  | OtherError string
  | JsonSyntaxError string
  | JsonUnmarshalTypeError string string
  | ErrorString string
  | Wrapf string error
  | WrapfQ string string "error option"
  | ErrScriptDoesNotExist
  | FsError string
  | RuntimePanic panic

text \<open>\<^verbatim>\<open>errors.Is(err, errScriptDoesNotExist)\<close>: the sentinel, possibly wrapped.\<close>

fun isErrScriptDoesNotExist :: "error \<Rightarrow> bool" where
  "isErrScriptDoesNotExist ErrScriptDoesNotExist = True"
| "isErrScriptDoesNotExist (Wrapf msg e) = isErrScriptDoesNotExist e"
| "isErrScriptDoesNotExist (WrapfQ msg arg (Some e)) = isErrScriptDoesNotExist e"
| "isErrScriptDoesNotExist _ = False"

text \<open>
  \<^verbatim>\<open>errors.As(err, &typeError)\<close> with \<^verbatim>\<open>typeError\<close> of type \<^verbatim>\<open>*json.UnmarshalTypeError\<close>
  (lua.go, lines 147-148): true when the chain of \<^verbatim>\<open>err\<close> holds an error of that type.
  \<^verbatim>\<open>errors.As\<close> matches on the type alone and overwrites the target; the fields the
  target was built with (\<^verbatim>\<open>Value: "array"\<close>) take no part.
\<close>

fun asUnmarshalTypeError :: "error \<Rightarrow> bool" where
  "asUnmarshalTypeError (JsonUnmarshalTypeError v f) = True"
| "asUnmarshalTypeError (Wrapf msg e) = asUnmarshalTypeError e"
| "asUnmarshalTypeError (WrapfQ msg arg (Some e)) = asUnmarshalTypeError e"
| "asUnmarshalTypeError _ = False"

text \<open>
  The value on top of the interpreter's stack, by its \<^verbatim>\<open>lua.LValueType\<close>. The content of
  a table is left abstract (\<open>'t\<close>): the code hands a table to the encoder and never looks
  inside. \<^verbatim>\<open>typeString\<close> is \<^verbatim>\<open>LValueType.String()\<close>.
\<close>

datatype 't LValue =
    LNil
  | LBool bool
  | LNumber real
  | LString string
  | LFunction
  | LUserData
  | LThread
  | LTable 't
  | LChannel

fun typeString :: "'t LValue \<Rightarrow> string" where
  "typeString LNil = ''nil''"
| "typeString (LBool b) = ''boolean''"
| "typeString (LNumber n) = ''number''"
| "typeString (LString s) = ''string''"
| "typeString LFunction = ''function''"
| "typeString LUserData = ''userdata''"
| "typeString LThread = ''thread''"
| "typeString (LTable t) = ''table''"
| "typeString LChannel = ''channel''"

record HealthStatus =
  Status :: string
  Message :: string

text \<open>
  Modelled from the spec: the declarations of \<^verbatim>\<open>ImpactedResource\<close>, \<^verbatim>\<open>K8SOperation\<close>,
  \<^verbatim>\<open>ResourceAction\<close>, \<^verbatim>\<open>ResourceOverride\<close> and \<^verbatim>\<open>ResourceActions\<close> are not among the
  source files. An impacted resource is a pair of a resulting object (a pointer, so
  possibly nil) and an operation kind; an action descriptor has a name and a disabled
  flag; an override carries health-script text, the library-surface flag and an actions
  block, which holds a discovery script and the merge-built-ins flag.
\<close>

datatype K8SOperation = PatchOperation | CreateOperation | OtherOperation string

record ImpactedResource =
  UnstructuredObj :: "jobject option"
  K8SOperation :: K8SOperation

record ResourceAction =
  Name :: string
  Disabled :: bool

record ResourceOverride =
  HealthLua :: string
  UseOpenLibs :: bool
  Actions :: string

record ResourceActions =
  ActionDiscoveryLua :: string
  MergeBuiltinActions :: bool

record GroupVersionKind =
  Group :: string
  Version :: string
  Kind :: string

text \<open>
  The field \<^verbatim>\<open>UseOpenLibs\<close> of \<^verbatim>\<open>VM\<close> is \<^verbatim>\<open>vmUseOpenLibs\<close>, the plain name being the
  field of the override.
\<close>

record VM =
  ResourceOverrides :: "(string \<times> ResourceOverride) list"
  vmUseOpenLibs :: bool

text \<open>The compiled-in catalog \<^verbatim>\<open>resource_customizations.Embedded\<close>, as the code reads it.\<close>

datatype readResult = FileData string | NotExist | ReadError string

record walkEntry =
  walkPath :: string
  walkIsDir :: bool
  walkErr :: "string option"

text \<open>
  Everything the code calls that is not among the source files, as parameters:
  \<^item> \<^verbatim>\<open>doString\<close>: the sandboxed interpreter run of \<^verbatim>\<open>runLuaWithResourceActionParameters\<close>
    (fresh state, library surface by the flag, globals \<^verbatim>\<open>obj\<close> and \<^verbatim>\<open>actionParams\<close>,
    one-second context, \<^verbatim>\<open>DoString\<close>), giving the error of \<^verbatim>\<open>DoString\<close> or the value
    \<^verbatim>\<open>l.Get(-1)\<close>;
  \<^item> \<^verbatim>\<open>luajsonEncode\<close>: \<^verbatim>\<open>luajson.Encode\<close>;
  \<^item> the decoders of \<^verbatim>\<open>encoding/json\<close> at the types the code decodes into, and
    \<^verbatim>\<open>json.Marshal\<close>;
  \<^item> \<^verbatim>\<open>unmarshalToUnstructured\<close>: \<^verbatim>\<open>appv1.UnmarshalToUnstructured\<close>;
  \<^item> \<^verbatim>\<open>globMatch\<close>: \<^verbatim>\<open>argoglob.Match(pattern, text)\<close>; \<^verbatim>\<open>pathMatchUnvalidated\<close> and
    \<^verbatim>\<open>validatePattern\<close>: the functions of the doublestar package;
  \<^item> \<^verbatim>\<open>filepathJoin\<close>: \<^verbatim>\<open>filepath.Join\<close> of two elements;
  \<^item> \<^verbatim>\<open>embeddedReadFile\<close>: \<^verbatim>\<open>resource_customizations.Embedded.ReadFile\<close>;
    \<^verbatim>\<open>embeddedWalk\<close>: the entries \<^verbatim>\<open>fs.WalkDir\<close> passes to its callback, in order;
  \<^item> \<^verbatim>\<open>getActions\<close>: \<^verbatim>\<open>ResourceOverride.GetActions\<close>.
\<close>

record 't runtime =
  doString :: "bool \<Rightarrow> jobject \<Rightarrow> (string \<times> string) list \<Rightarrow> string \<Rightarrow> error + 't LValue"
  luajsonEncode :: "'t \<Rightarrow> error + string"
  unmarshalHealthStatus :: "string \<Rightarrow> error + HealthStatus"
  unmarshalImpactedResources :: "string \<Rightarrow> error + ImpactedResource list"
  unmarshalToUnstructured :: "string \<Rightarrow> error + jobject option"
  unmarshalActionsMap :: "string \<Rightarrow> error + jobject"
  jsonMarshal :: "jval \<Rightarrow> error + string"
  unmarshalResourceAction :: "string \<Rightarrow> ResourceAction \<Rightarrow> error + ResourceAction"
  globMatch :: "string \<Rightarrow> string \<Rightarrow> bool"
  pathMatchUnvalidated :: "string \<Rightarrow> string \<Rightarrow> bool"
  validatePattern :: "string \<Rightarrow> bool"
  filepathJoin :: "string \<Rightarrow> string \<Rightarrow> string"
  embeddedReadFile :: "string \<Rightarrow> readResult"
  embeddedWalk :: "walkEntry list"
  getActions :: "ResourceOverride \<Rightarrow> error + ResourceActions"

text \<open>
  A runtime to build examples from: the interpreter returns nil for every script, every
  decoder fails, no pattern matches and the catalog is empty.
\<close>

definition nullRuntime :: "string runtime" where
  "nullRuntime =
     \<lparr>doString = (\<lambda>useOpenLibs obj params script. Inr LNil),
      luajsonEncode = (\<lambda>t. Inr t),
      unmarshalHealthStatus = (\<lambda>text. Inl (JsonSyntaxError text)),
      unmarshalImpactedResources = (\<lambda>text. Inl (JsonSyntaxError text)),
      unmarshalToUnstructured = (\<lambda>text. Inl (JsonSyntaxError text)),
      unmarshalActionsMap = (\<lambda>text. Inl (JsonSyntaxError text)),
      jsonMarshal = (\<lambda>v. Inr []),
      unmarshalResourceAction = (\<lambda>text action. Inl (JsonSyntaxError text)),
      globMatch = (\<lambda>pattern text. False),
      pathMatchUnvalidated = (\<lambda>pattern name. False),
      validatePattern = (\<lambda>pattern. True),
      filepathJoin = (\<lambda>dir file. dir @ ''/'' @ file),
      embeddedReadFile = (\<lambda>name. NotExist),
      embeddedWalk = [],
      getActions = (\<lambda>override. Inl (OtherError ''no actions''))\<rparr>"

text \<open>
  A runtime for the examples of action discovery: the script \<^verbatim>\<open>user\<close> returns one
  disabled action \<^verbatim>\<open>restart\<close>; the script \<^verbatim>\<open>builtin\<close> returns \<^verbatim>\<open>restart\<close>, enabled, and
  \<^verbatim>\<open>scale\<close> with an empty entry; the script \<^verbatim>\<open>broken\<close> returns \<^verbatim>\<open>restart\<close> with a string
  for its entry, which does not decode into a descriptor. Decoding a map entry leaves the
  descriptor as prepared.
\<close>

definition discoveryDemo :: "string runtime" where
  "discoveryDemo =
     nullRuntime
       \<lparr>doString := (\<lambda>useOpenLibs obj params script.
          if script = ''user'' then Inr (LTable ''{\"restart\":{\"disabled\":true}}'')
          else if script = ''builtin''
          then Inr (LTable ''{\"restart\":{\"disabled\":false},\"scale\":[]}'')
          else if script = ''broken'' then Inr (LTable ''{\"restart\":\"now\"}'')
          else Inr (LTable ''[]'')),
        unmarshalActionsMap := (\<lambda>text.
          if text = ''{\"restart\":{\"disabled\":true}}''
          then Inr [(''restart'', JMap [(''disabled'', JBool True)])]
          else if text = ''{\"restart\":{\"disabled\":false},\"scale\":[]}''
          then Inr [(''restart'', JMap [(''disabled'', JBool False)]), (''scale'', JList [])]
          else if text = ''{\"restart\":\"now\"}''
          then Inr [(''restart'', JStr ''now'')]
          else Inl (JsonSyntaxError text)),
        jsonMarshal := (\<lambda>v. case v of JStr t \<Rightarrow> Inr (''\"'' @ t @ ''\"'') | _ \<Rightarrow> Inr ''{}''),
        unmarshalResourceAction := (\<lambda>text action.
          if text = ''{}'' then Inr action else Inl (JsonUnmarshalTypeError ''string'' []))\<rparr>"

text \<open>
  A runtime for an example of action discovery with a renamed action: the script
  \<^verbatim>\<open>renamed\<close> returns \<^verbatim>\<open>restart\<close> with an entry whose name is \<^verbatim>\<open>reboot\<close>, the script \<^verbatim>\<open>plain\<close>
  returns \<^verbatim>\<open>restart\<close> with an entry that has no name. Decoding an entry sets the fields
  the entry has and leaves the others as prepared.
\<close>

definition renamingDemo :: "string runtime" where
  "renamingDemo =
     nullRuntime
       \<lparr>doString := (\<lambda>useOpenLibs obj params script.
          if script = ''renamed'' then Inr (LTable ''{\"restart\":{\"name\":\"reboot\"}}'')
          else if script = ''plain'' then Inr (LTable ''{\"restart\":{\"disabled\":false}}'')
          else Inr (LTable ''[]'')),
        unmarshalActionsMap := (\<lambda>text.
          if text = ''{\"restart\":{\"name\":\"reboot\"}}''
          then Inr [(''restart'', JMap [(''name'', JStr ''reboot'')])]
          else if text = ''{\"restart\":{\"disabled\":false}}''
          then Inr [(''restart'', JMap [(''disabled'', JBool False)])]
          else Inl (JsonSyntaxError text)),
        jsonMarshal := (\<lambda>v.
          if v = JMap [(''name'', JStr ''reboot'')] then Inr ''{\"name\":\"reboot\"}''
          else Inr ''{\"disabled\":false}''),
        unmarshalResourceAction := (\<lambda>text action.
          if text = ''{\"name\":\"reboot\"}'' then Inr (action\<lparr>Name := ''reboot''\<rparr>)
          else Inr action)\<rparr>"

section \<open>Constants\<close>

text \<open>The format \<^verbatim>\<open>"expect %s output from Lua script, not %s"\<close>, filled in.\<close>

definition incorrectReturnType :: "string \<Rightarrow> string \<Rightarrow> string" where
  "incorrectReturnType expected actual =
     ''expect '' @ expected @ '' output from Lua script, not '' @ actual"

definition invalidHealthStatus :: string where
  "invalidHealthStatus = ''Lua returned an invalid health status''"

definition healthScriptFile :: string where
  "healthScriptFile = ''health.lua''"

definition actionDiscoveryScriptFile :: string where
  "actionDiscoveryScriptFile = ''discovery.lua''"

text \<open>The status codes of \<^verbatim>\<open>gitops-engine/pkg/health\<close> (a string type).\<close>

definition HealthStatusUnknown :: string where "HealthStatusUnknown = ''Unknown''"
definition HealthStatusProgressing :: string where "HealthStatusProgressing = ''Progressing''"
definition HealthStatusHealthy :: string where "HealthStatusHealthy = ''Healthy''"
definition HealthStatusSuspended :: string where "HealthStatusSuspended = ''Suspended''"
definition HealthStatusDegraded :: string where "HealthStatusDegraded = ''Degraded''"
definition HealthStatusMissing :: string where "HealthStatusMissing = ''Missing''"

section \<open>Running a script\<close>

text \<open>
  \<^verbatim>\<open>runLuaWithResourceActionParameters\<close> (lines 75-129): after the run, an
  \<^verbatim>\<open>*lua.ApiError\<close> of type \<^verbatim>\<open>ApiErrorRun\<close> loses its stack trace.
\<close>

fun stripStackTrace :: "error \<Rightarrow> error" where
  "stripStackTrace (LuaApiError ApiErrorRun msg trace) = LuaApiError ApiErrorRun msg []"
| "stripStackTrace e = e"

definition runLuaWithResourceActionParameters ::
  "'t runtime \<Rightarrow> VM \<Rightarrow> jobject \<Rightarrow> string \<Rightarrow> (string \<times> string) list \<Rightarrow> error + 't LValue"
where
  "runLuaWithResourceActionParameters rt vm obj script resourceActionParameters =
     (case doString rt (vmUseOpenLibs vm) obj resourceActionParameters script of
        Inl err \<Rightarrow> Inl (stripStackTrace err)
      | Inr returnValue \<Rightarrow> Inr returnValue)"

definition runLua :: "'t runtime \<Rightarrow> VM \<Rightarrow> jobject \<Rightarrow> string \<Rightarrow> error + 't LValue" where
  "runLua rt vm obj script = runLuaWithResourceActionParameters rt vm obj script []"

section \<open>Health evaluation\<close>

definition isValidHealthStatusCode :: "string \<Rightarrow> bool" where
  "isValidHealthStatusCode statusCode \<longleftrightarrow>
     statusCode = HealthStatusUnknown \<or> statusCode = HealthStatusProgressing \<or>
     statusCode = HealthStatusSuspended \<or> statusCode = HealthStatusHealthy \<or>
     statusCode = HealthStatusDegraded \<or> statusCode = HealthStatusMissing"

text \<open>\<^verbatim>\<open>ExecuteHealthLua\<close> (lines 132-165).\<close>

definition ExecuteHealthLua ::
  "'t runtime \<Rightarrow> VM \<Rightarrow> jobject \<Rightarrow> string \<Rightarrow> error + HealthStatus"
where
  "ExecuteHealthLua rt vm obj script =
     (case runLua rt vm obj script of
        Inl err \<Rightarrow> Inl err
      | Inr returnValue \<Rightarrow>
          (case returnValue of
             LTable t \<Rightarrow>
               (case luajsonEncode rt t of
                  Inl err \<Rightarrow> Inl err
                | Inr jsonBytes \<Rightarrow>
                    (case unmarshalHealthStatus rt jsonBytes of
                       Inl err \<Rightarrow>
                         (if asUnmarshalTypeError err
                          then Inr \<lparr>Status = [], Message = []\<rparr>
                          else Inl err)
                     | Inr healthStatus \<Rightarrow>
                         (if \<not> isValidHealthStatusCode (Status healthStatus)
                          then Inr \<lparr>Status = HealthStatusUnknown,
                                    Message = invalidHealthStatus\<rparr>
                          else Inr healthStatus)))
           | LNil \<Rightarrow> Inr \<lparr>Status = [], Message = []\<rparr>
           | _ \<Rightarrow> Inl (ErrorString (incorrectReturnType ''table'' (typeString returnValue)))))"

section \<open>Action execution\<close>

text \<open>\<^verbatim>\<open>UnmarshalToImpactedResources\<close> (lines 258-269).\<close>

definition UnmarshalToImpactedResources ::
  "'t runtime \<Rightarrow> string \<Rightarrow> error + ImpactedResource list"
where
  "UnmarshalToImpactedResources rt resources =
     (if resources = [] \<or> resources = ''null'' then Inr []
      else (case unmarshalImpactedResources rt resources of
              Inl err \<Rightarrow> Inl err
            | Inr impactedResources \<Rightarrow> Inr impactedResources))"

text \<open>
  The loop of lines 246-251: every entry tagged with the patch operation has the object
  behind its pointer replaced by the cleaned one. A nil pointer there, or a panic of the
  cleaning pass, ends the call.
\<close>

fun cleanImpactedResources :: "ImpactedResource list \<Rightarrow> jobject \<Rightarrow> error + ImpactedResource list"
where
  "cleanImpactedResources [] obj = Inr []"
| "cleanImpactedResources (impactedResource # rest) obj =
     (if K8SOperation impactedResource = PatchOperation
      then (case UnstructuredObj impactedResource of
              None \<Rightarrow> Inl (RuntimePanic NilPointerDereference)
            | Some newObj \<Rightarrow>
                (case cleanReturnedObj newObj obj of
                   Inl p \<Rightarrow> Inl (RuntimePanic p)
                 | Inr cleaned \<Rightarrow>
                     (case cleanImpactedResources rest obj of
                        Inl err \<Rightarrow> Inl err
                      | Inr others \<Rightarrow>
                          Inr (impactedResource\<lparr>UnstructuredObj := Some cleaned\<rparr> # others))))
      else (case cleanImpactedResources rest obj of
              Inl err \<Rightarrow> Inl err
            | Inr others \<Rightarrow> Inr (impactedResource # others)))"

text \<open>\<^verbatim>\<open>ExecuteResourceAction\<close> (lines 207-255).\<close>

definition ExecuteResourceAction ::
  "'t runtime \<Rightarrow> VM \<Rightarrow> jobject \<Rightarrow> string \<Rightarrow> (string \<times> string) list \<Rightarrow>
     error + ImpactedResource list"
where
  "ExecuteResourceAction rt vm obj script resourceActionParameters =
     (case runLuaWithResourceActionParameters rt vm obj script resourceActionParameters of
        Inl err \<Rightarrow> Inl err
      | Inr returnValue \<Rightarrow>
          (case returnValue of
             LTable t \<Rightarrow>
               (case luajsonEncode rt t of
                  Inl err \<Rightarrow> Inl err
                | Inr jsonString \<Rightarrow>
                    (if length jsonString < 2
                     then Inl (ErrorString ''Lua output was not a valid json object or array'')
                     else (case (if jsonString ! 0 = CHR ''['' \<and>
                                    jsonString ! (length jsonString - 1) = CHR '']''
                                 then UnmarshalToImpactedResources rt jsonString
                                 else (case unmarshalToUnstructured rt jsonString of
                                         Inl err \<Rightarrow> Inl err
                                       | Inr newObj \<Rightarrow>
                                           Inr [\<lparr>UnstructuredObj = newObj,
                                                 K8SOperation = PatchOperation\<rparr>])) of
                             Inl err \<Rightarrow> Inl err
                           | Inr impactedResources \<Rightarrow>
                               cleanImpactedResources impactedResources obj)))
           | _ \<Rightarrow> Inl (ErrorString (incorrectReturnType ''table'' (typeString returnValue)))))"

section \<open>Action discovery\<close>

text \<open>\<^verbatim>\<open>isActionDisabled\<close> (lines 384-397), its loop over the entries of the map first.\<close>

fun isActionDisabledRange :: "(string \<times> jval) list \<Rightarrow> bool" where
  "isActionDisabledRange [] = False"
| "isActionDisabledRange ((key, entry) # rest) =
     (case entry of
        JBool vv \<Rightarrow> (if key = ''disabled'' then vv else isActionDisabledRange rest)
      | _ \<Rightarrow> isActionDisabledRange rest)"

definition isActionDisabled :: "jval \<Rightarrow> bool" where
  "isActionDisabled actionsMap =
     (case actionsMap of
        JMap actions \<Rightarrow> isActionDisabledRange (mapEntries actions)
      | _ \<Rightarrow> False)"

definition emptyResourceActionFromLua :: "jval \<Rightarrow> bool" where
  "emptyResourceActionFromLua i = (case i of JList xs \<Rightarrow> True | _ \<Rightarrow> False)"

definition noAvailableActions :: "string \<Rightarrow> bool" where
  "noAvailableActions jsonBytes \<longleftrightarrow> jsonBytes = ''[]''"

text \<open>
  The inner loop of \<^verbatim>\<open>ExecuteResourceActionDiscovery\<close> (lines 353-372) over the entries
  of one script's \<^verbatim>\<open>actionsMap\<close>, threading \<^verbatim>\<open>availableActionsMap\<close>.
\<close>

fun actionsRange ::
  "'t runtime \<Rightarrow> (string \<times> jval) list \<Rightarrow> (string \<times> ResourceAction) list \<Rightarrow>
     error + (string \<times> ResourceAction) list"
where
  "actionsRange rt [] availableActionsMap = Inr availableActionsMap"
| "actionsRange rt ((key, entry) # rest) availableActionsMap =
     (let resourceAction = \<lparr>Name = key, Disabled = isActionDisabled entry\<rparr> in
      if map_of availableActionsMap key \<noteq> None
      then actionsRange rt rest availableActionsMap
      else if emptyResourceActionFromLua entry
      then actionsRange rt rest (AList.update key resourceAction availableActionsMap)
      else (case jsonMarshal rt entry of
              Inl err \<Rightarrow> Inl (Wrapf ''error marshaling resource action'' err)
            | Inr resourceActionBytes \<Rightarrow>
                (case unmarshalResourceAction rt resourceActionBytes resourceAction of
                   Inl err \<Rightarrow> Inl (Wrapf ''error unmarshaling resource action'' err)
                 | Inr decoded \<Rightarrow>
                     actionsRange rt rest (AList.update key decoded availableActionsMap))))"

text \<open>The outer loop over the scripts (lines 332-373).\<close>

fun scriptsRange ::
  "'t runtime \<Rightarrow> VM \<Rightarrow> jobject \<Rightarrow> string list \<Rightarrow> (string \<times> ResourceAction) list \<Rightarrow>
     error + (string \<times> ResourceAction) list"
where
  "scriptsRange rt vm obj [] availableActionsMap = Inr availableActionsMap"
| "scriptsRange rt vm obj (script # rest) availableActionsMap =
     (case runLua rt vm obj script of
        Inl err \<Rightarrow> Inl err
      | Inr returnValue \<Rightarrow>
          (case returnValue of
             LTable t \<Rightarrow>
               (case luajsonEncode rt t of
                  Inl err \<Rightarrow> Inl (Wrapf ''error in converting to lua table'' err)
                | Inr jsonBytes \<Rightarrow>
                    (if noAvailableActions jsonBytes
                     then scriptsRange rt vm obj rest availableActionsMap
                     else (case unmarshalActionsMap rt jsonBytes of
                             Inl err \<Rightarrow> Inl (Wrapf ''error unmarshaling action table'' err)
                           | Inr actionsMap \<Rightarrow>
                               (case actionsRange rt (mapEntries actionsMap)
                                       availableActionsMap of
                                  Inl err \<Rightarrow> Inl err
                                | Inr merged \<Rightarrow> scriptsRange rt vm obj rest merged))))
           | _ \<Rightarrow> Inl (ErrorString (incorrectReturnType ''table'' (typeString returnValue)))))"

text \<open>
  \<^verbatim>\<open>ExecuteResourceActionDiscovery\<close> (lines 326-381). The result lists the values of
  \<^verbatim>\<open>availableActionsMap\<close>, in an order the language leaves open.
\<close>

definition ExecuteResourceActionDiscovery ::
  "'t runtime \<Rightarrow> VM \<Rightarrow> jobject \<Rightarrow> string list \<Rightarrow> error + ResourceAction list"
where
  "ExecuteResourceActionDiscovery rt vm obj scripts =
     (if length scripts = 0 then Inl (ErrorString ''no action discovery script provided'')
      else (case scriptsRange rt vm obj scripts [] of
              Inl err \<Rightarrow> Inl err
            | Inr availableActionsMap \<Rightarrow> Inr (map snd (mapEntries availableActionsMap))))"

text \<open>
  What one script contributes and what the loop stores for a name not yet present; both
  are read off the loops (\<open>scriptsRange_step\<close>, \<open>actionsRange_step\<close> below).
\<close>

definition scriptActions ::
  "'t runtime \<Rightarrow> VM \<Rightarrow> jobject \<Rightarrow> string \<Rightarrow> error + (string \<times> jval) list"
where
  "scriptActions rt vm obj script =
     (case runLua rt vm obj script of
        Inl err \<Rightarrow> Inl err
      | Inr returnValue \<Rightarrow>
          (case returnValue of
             LTable t \<Rightarrow>
               (case luajsonEncode rt t of
                  Inl err \<Rightarrow> Inl (Wrapf ''error in converting to lua table'' err)
                | Inr jsonBytes \<Rightarrow>
                    (if noAvailableActions jsonBytes then Inr []
                     else (case unmarshalActionsMap rt jsonBytes of
                             Inl err \<Rightarrow> Inl (Wrapf ''error unmarshaling action table'' err)
                           | Inr actionsMap \<Rightarrow> Inr (mapEntries actionsMap))))
           | _ \<Rightarrow> Inl (ErrorString (incorrectReturnType ''table'' (typeString returnValue)))))"

definition toResourceAction :: "'t runtime \<Rightarrow> string \<Rightarrow> jval \<Rightarrow> error + ResourceAction" where
  "toResourceAction rt key entry =
     (let resourceAction = \<lparr>Name = key, Disabled = isActionDisabled entry\<rparr> in
      if emptyResourceActionFromLua entry then Inr resourceAction
      else (case jsonMarshal rt entry of
              Inl err \<Rightarrow> Inl (Wrapf ''error marshaling resource action'' err)
            | Inr resourceActionBytes \<Rightarrow>
                (case unmarshalResourceAction rt resourceActionBytes resourceAction of
                   Inl err \<Rightarrow> Inl (Wrapf ''error unmarshaling resource action'' err)
                 | Inr decoded \<Rightarrow> Inr decoded)))"

text \<open>The action names one script contributes.\<close>

definition scriptNames :: "'t runtime \<Rightarrow> VM \<Rightarrow> jobject \<Rightarrow> string \<Rightarrow> string set" where
  "scriptNames rt vm obj script =
     (case scriptActions rt vm obj script of Inl err \<Rightarrow> {} | Inr es \<Rightarrow> fst ` set es)"

section \<open>Script resolution\<close>

definition GetConfigMapKey :: "GroupVersionKind \<Rightarrow> string" where
  "GetConfigMapKey gvk = (if Group gvk = [] then Kind gvk else Group gvk @ ''/'' @ Kind gvk)"

text \<open>
  \<^verbatim>\<open>getWildcardHealthOverrideLua\<close> (lines 481-490): the loop over the entries of the
  overrides map, then the function.
\<close>

fun wildcardOverrideRange ::
  "'t runtime \<Rightarrow> (string \<times> ResourceOverride) list \<Rightarrow> string \<Rightarrow> string \<times> bool"
where
  "wildcardOverrideRange rt [] gvkKeyToMatch = ([], False)"
| "wildcardOverrideRange rt ((key, override) # rest) gvkKeyToMatch =
     (if globMatch rt key gvkKeyToMatch \<and> HealthLua override \<noteq> []
      then (HealthLua override, UseOpenLibs override)
      else wildcardOverrideRange rt rest gvkKeyToMatch)"

definition getWildcardHealthOverrideLua ::
  "'t runtime \<Rightarrow> (string \<times> ResourceOverride) list \<Rightarrow> GroupVersionKind \<Rightarrow> string \<times> bool"
where
  "getWildcardHealthOverrideLua rt overrides gvk =
     wildcardOverrideRange rt (mapEntries overrides) (GetConfigMapKey gvk)"

text \<open>\<^verbatim>\<open>getPredefinedLuaScripts\<close> (lines 492-501).\<close>

definition getPredefinedLuaScripts :: "'t runtime \<Rightarrow> string \<Rightarrow> string \<Rightarrow> error + string" where
  "getPredefinedLuaScripts rt objKey scriptFile =
     (case embeddedReadFile rt (filepathJoin rt objKey scriptFile) of
        FileData content \<Rightarrow> Inr content
      | NotExist \<Rightarrow> Inl ErrScriptDoesNotExist
      | ReadError msg \<Rightarrow> Inl (FsError msg))"

text \<open>
  \<^verbatim>\<open>filepath.Dir\<close> and \<^verbatim>\<open>filepath.Base\<close> on the paths \<^verbatim>\<open>fs.WalkDir\<close> passes to its
  callback: clean, relative, slash-separated, the root being \<^verbatim>\<open>"."\<close>.
  \<^verbatim>\<open>strings.Contains(s, "_")\<close> and \<^verbatim>\<open>strings.ReplaceAll(s, "_", "*")\<close>.
\<close>

definition filepathBase :: "string \<Rightarrow> string" where
  "filepathBase path = rev (takeWhile (\<lambda>c. c \<noteq> CHR ''/'') (rev path))"

definition filepathDir :: "string \<Rightarrow> string" where
  "filepathDir path =
     (if CHR ''/'' \<in> set path
      then rev (drop 1 (dropWhile (\<lambda>c. c \<noteq> CHR ''/'') (rev path)))
      else ''.'')"

definition containsUnderscore :: "string \<Rightarrow> bool" where
  "containsUnderscore s \<longleftrightarrow> CHR ''_'' \<in> set s"

definition underscoresToStars :: "string \<Rightarrow> string" where
  "underscoresToStars s = map (\<lambda>c. if c = CHR ''_'' then CHR ''*'' else c) s"

text \<open>
  The callback of the walk in \<^verbatim>\<open>getGlobHealthScriptPaths\<close> (lines 518-547), run over the
  entries of the walk with the patterns collected so far; the walk stops at the first
  error the callback returns.
\<close>

fun walkRange :: "'t runtime \<Rightarrow> walkEntry list \<Rightarrow> string list \<Rightarrow> error + string list" where
  "walkRange rt [] patterns = Inr patterns"
| "walkRange rt (d # rest) patterns =
     (case walkErr d of
        Some msg \<Rightarrow> Inl (WrapfQ ''error walking path %q'' (walkPath d) (Some (FsError msg)))
      | None \<Rightarrow>
          (if walkIsDir d \<and> filepathDir (walkPath d) = ''.'' then walkRange rt rest patterns
           else if filepathBase (walkPath d) \<noteq> healthScriptFile then walkRange rt rest patterns
           else (let groupKindPath = filepathDir (walkPath d) in
                 if \<not> containsUnderscore groupKindPath then walkRange rt rest patterns
                 else (let pattern = underscoresToStars groupKindPath in
                       if \<not> validatePattern rt pattern
                       then Inl (WrapfQ ''invalid glob pattern %q'' pattern None)
                       else walkRange rt rest (patterns @ [groupKindPath])))))"

text \<open>
  The package-level state of \<^verbatim>\<open>getGlobHealthScriptPaths\<close>: whether the
  \<^verbatim>\<open>sync.Once\<close> has run, and the cached \<^verbatim>\<open>globHealthScriptPaths\<close>. A failed first run
  leaves the cache empty and the once spent. \<^verbatim>\<open>slices.Sort\<close> on strings is the
  bytewise lexicographic order, here the order of \<^typ>\<open>string\<close>.
\<close>

record globCache =
  onceDone :: bool
  globHealthScriptPaths :: "string list"

definition getGlobHealthScriptPaths ::
  "'t runtime \<Rightarrow> globCache \<Rightarrow> (error + string list) \<times> globCache"
where
  "getGlobHealthScriptPaths rt st =
     (if onceDone st then (Inr (globHealthScriptPaths st), st)
      else (case walkRange rt (embeddedWalk rt) [] of
              Inl err \<Rightarrow>
                (Inl (Wrapf ''error getting health script glob directories'' err),
                 st\<lparr>onceDone := True\<rparr>)
            | Inr patterns \<Rightarrow>
                (Inr (sort patterns),
                 \<lparr>onceDone = True, globHealthScriptPaths = sort patterns\<rparr>)))"

text \<open>
  \<^verbatim>\<open>getWildcardBuiltInHealthOverrideLua\<close> (lines 563-583): the loop over the globs, then
  the function.
\<close>

fun globsRange :: "'t runtime \<Rightarrow> string list \<Rightarrow> string \<Rightarrow> error + string" where
  "globsRange rt [] objKey = Inr []"
| "globsRange rt (g # rest) objKey =
     (let pattern = underscoresToStars g in
      if \<not> pathMatchUnvalidated rt pattern objKey then globsRange rt rest objKey
      else (case embeddedReadFile rt (filepathJoin rt g healthScriptFile) of
              FileData script \<Rightarrow> Inr script
            | NotExist \<Rightarrow>
                Inl (WrapfQ ''error reading %q file in embedded filesystem''
                       (filepathJoin rt objKey healthScriptFile)
                       (Some (FsError ''file does not exist'')))
            | ReadError msg \<Rightarrow>
                Inl (WrapfQ ''error reading %q file in embedded filesystem''
                       (filepathJoin rt objKey healthScriptFile) (Some (FsError msg)))))"

definition getWildcardBuiltInHealthOverrideLua ::
  "'t runtime \<Rightarrow> globCache \<Rightarrow> string \<Rightarrow> (error + string) \<times> globCache"
where
  "getWildcardBuiltInHealthOverrideLua rt st objKey =
     (case getGlobHealthScriptPaths rt st of
        (Inl err, st') \<Rightarrow> (Inl (Wrapf ''error getting health script globs'' err), st')
      | (Inr globs, st') \<Rightarrow> (globsRange rt globs objKey, st'))"

text \<open>
  \<^verbatim>\<open>GetHealthScript\<close> (lines 169-205). The group, version and kind of the object are an
  argument. The result is the pair of script and library-surface flag, or the error.
\<close>

definition GetHealthScript ::
  "'t runtime \<Rightarrow> VM \<Rightarrow> globCache \<Rightarrow> GroupVersionKind \<Rightarrow> (error + string \<times> bool) \<times> globCache"
where
  "GetHealthScript rt vm st gvk =
     (let key = GetConfigMapKey gvk in
      case (case map_of (ResourceOverrides vm) key of
              None \<Rightarrow> None
            | Some script \<Rightarrow> if HealthLua script \<noteq> [] then Some script else None) of
        Some script \<Rightarrow> (Inr (HealthLua script, UseOpenLibs script), st)
      | None \<Rightarrow>
          (case getWildcardHealthOverrideLua rt (ResourceOverrides vm) gvk of
             (getWildcardHealthOverride, useOpenLibs) \<Rightarrow>
               if getWildcardHealthOverride \<noteq> []
               then (Inr (getWildcardHealthOverride, useOpenLibs), st)
               else (case getPredefinedLuaScripts rt key healthScriptFile of
                       Inl err \<Rightarrow>
                         (if isErrScriptDoesNotExist err
                          then (case getWildcardBuiltInHealthOverrideLua rt st key of
                                  (Inl err', st') \<Rightarrow>
                                    (Inl (Wrapf ''error while fetching built-in health script''
                                            err'), st')
                                | (Inr builtInScript, st') \<Rightarrow>
                                    (if builtInScript \<noteq> []
                                     then (Inr (builtInScript, True), st')
                                     else (Inr ([], False), st')))
                          else (Inl err, st))
                     | Inr builtInScript \<Rightarrow> (Inr (builtInScript, True), st))))"

text \<open>
  The conditions of the precedence: an override under the key itself with a health script,
  an override whose key matches with a health script, and a catalog directory whose
  pattern matches the key.
\<close>

definition exactOverride :: "VM \<Rightarrow> GroupVersionKind \<Rightarrow> bool" where
  "exactOverride vm gvk \<longleftrightarrow>
     (case map_of (ResourceOverrides vm) (GetConfigMapKey gvk) of
        None \<Rightarrow> False
      | Some ov \<Rightarrow> HealthLua ov \<noteq> [])"

definition wildcardOverride :: "'t runtime \<Rightarrow> VM \<Rightarrow> GroupVersionKind \<Rightarrow> bool" where
  "wildcardOverride rt vm gvk \<longleftrightarrow>
     list_ex (\<lambda>(k, ov). globMatch rt k (GetConfigMapKey gvk) \<and> HealthLua ov \<noteq> [])
       (mapEntries (ResourceOverrides vm))"

definition builtInMatches :: "'t runtime \<Rightarrow> GroupVersionKind \<Rightarrow> string \<Rightarrow> bool" where
  "builtInMatches rt gvk g \<longleftrightarrow>
     pathMatchUnvalidated rt (underscoresToStars g) (GetConfigMapKey gvk)"

text \<open>\<^verbatim>\<open>GetResourceActionDiscovery\<close> (lines 409-441).\<close>

definition GetResourceActionDiscovery ::
  "'t runtime \<Rightarrow> VM \<Rightarrow> GroupVersionKind \<Rightarrow> error + string list"
where
  "GetResourceActionDiscovery rt vm gvk =
     (let key = GetConfigMapKey gvk;
          fetchPredefined = (\<lambda>discoveryScripts.
            (case getPredefinedLuaScripts rt (key @ ''/actions/'') actionDiscoveryScriptFile of
               Inl err \<Rightarrow>
                 (if isErrScriptDoesNotExist err then Inr discoveryScripts
                  else Inl (Wrapf ''error while fetching predefined lua scripts'' err))
             | Inr discoveryScript \<Rightarrow> Inr (discoveryScripts @ [discoveryScript])))
      in case (case map_of (ResourceOverrides vm) key of
                 None \<Rightarrow> None
               | Some override \<Rightarrow> if Actions override \<noteq> [] then Some override else None) of
           Some override \<Rightarrow>
             (case getActions rt override of
                Inl err \<Rightarrow> Inl err
              | Inr actions \<Rightarrow>
                  (if \<not> MergeBuiltinActions actions then Inr [ActionDiscoveryLua actions]
                   else fetchPredefined [ActionDiscoveryLua actions]))
         | None \<Rightarrow> fetchPredefined [])"

text \<open>
  A runtime and overrides for the examples of resolution. The catalog has a health script
  for \<^verbatim>\<open>batch/Job\<close> and for the wildcard directories \<^verbatim>\<open>_/_\<close> and \<^verbatim>\<open>_.crossplane.io/_\<close>, which
  the walk meets in this order; the overrides have one exact and one wildcard entry.
\<close>

definition resolverDemo :: "string runtime" where
  "resolverDemo =
     nullRuntime
       \<lparr>globMatch := (\<lambda>pattern text.
          pattern = text \<or> (pattern = ''*.example.io/*'' \<and> text = ''db.example.io/Cluster'')),
        pathMatchUnvalidated := (\<lambda>pattern name.
          (pattern = ''*/*'' \<or> pattern = ''*.crossplane.io/*'') \<and>
          name = ''pkg.crossplane.io/Provider''),
        embeddedReadFile := (\<lambda>name.
          if name = ''batch/Job/health.lua'' then FileData ''return job''
          else if name = ''_.crossplane.io/_/health.lua'' then FileData ''return crossplane''
          else if name = ''_/_/health.lua'' then FileData ''return any''
          else NotExist),
        embeddedWalk :=
          [\<lparr>walkPath = ''.'', walkIsDir = True, walkErr = None\<rparr>,
           \<lparr>walkPath = ''_'', walkIsDir = True, walkErr = None\<rparr>,
           \<lparr>walkPath = ''_/_'', walkIsDir = True, walkErr = None\<rparr>,
           \<lparr>walkPath = ''_/_/health.lua'', walkIsDir = False, walkErr = None\<rparr>,
           \<lparr>walkPath = ''_.crossplane.io'', walkIsDir = True, walkErr = None\<rparr>,
           \<lparr>walkPath = ''_.crossplane.io/_'', walkIsDir = True, walkErr = None\<rparr>,
           \<lparr>walkPath = ''_.crossplane.io/_/health.lua'', walkIsDir = False, walkErr = None\<rparr>,
           \<lparr>walkPath = ''batch'', walkIsDir = True, walkErr = None\<rparr>,
           \<lparr>walkPath = ''batch/Job'', walkIsDir = True, walkErr = None\<rparr>,
           \<lparr>walkPath = ''batch/Job/health.lua'', walkIsDir = False, walkErr = None\<rparr>]\<rparr>"

definition resolverDemoVM :: VM where
  "resolverDemoVM =
     \<lparr>ResourceOverrides =
        [(''apps/Deployment'',
          \<lparr>HealthLua = ''return deployment'', UseOpenLibs = False, Actions = []\<rparr>),
         (''*.example.io/*'',
          \<lparr>HealthLua = ''return example'', UseOpenLibs = True, Actions = []\<rparr>)],
      vmUseOpenLibs = False\<rparr>"

section \<open>Properties of the cleaning pass\<close>

lemma cleanObjRange_step:
  "cleanObjRange (key # rest) m obj =
     (case map_of m key of
        None \<Rightarrow> cleanObjRange rest m obj
      | Some new \<Rightarrow>
         (case map_of obj key of
            None \<Rightarrow> cleanObjRange rest m obj
          | Some old \<Rightarrow>
             (case cleanValue new old of
                Inl p \<Rightarrow> Inl p
              | Inr v \<Rightarrow> cleanObjRange rest (AList.update key v m) obj)))"
  by (simp add: cleanObjRange.simps(2) cleanValue_def update_triv
        split: option.splits jval.splits sum.splits)

lemma list_update_same: "arr ! i = v \<Longrightarrow> arr[i := v] = arr"
  by (metis list_update_id)

lemma cleanArrayRange_step:
  "cleanArrayRange i arr obj =
     (if length arr \<le> i then Inr arr
      else (case cleanElem (arr ! i) obj i of
              Inl p \<Rightarrow> Inl p
            | Inr v \<Rightarrow> cleanArrayRange (Suc i) (arr[i := v]) obj))"
proof (cases "length arr \<le> i")
  case True
  then show ?thesis by (subst cleanArrayRange.simps) simp
next
  case False
  then show ?thesis
    by (subst cleanArrayRange.simps)
       (cases "arr ! i"; cases "obj ! i";
        simp add: cleanElem_def list_update_same split: sum.splits)
qed

lemma cleanObjRange_frame:
  "cleanObjRange keys m obj = Inr r \<Longrightarrow> k \<notin> set keys \<Longrightarrow> map_of r k = map_of m k"
proof (induction keys arbitrary: m)
  case Nil
  then show ?case by simp
next
  case (Cons key rest)
  from Cons.prems(2) have ne: "k \<noteq> key" and nin: "k \<notin> set rest" by auto
  show ?case
  proof (cases "map_of m key")
    case None
    with Cons.prems(1) have "cleanObjRange rest m obj = Inr r"
      by (simp add: cleanObjRange_step)
    from Cons.IH[OF this nin] show ?thesis .
  next
    case (Some new)
    show ?thesis
    proof (cases "map_of obj key")
      case None
      with Some Cons.prems(1) have "cleanObjRange rest m obj = Inr r"
        by (simp add: cleanObjRange_step)
      from Cons.IH[OF this nin] show ?thesis .
    next
      case old: (Some old)
      from Some old Cons.prems(1) obtain v where
        v: "cleanValue new old = Inr v"
        and run: "cleanObjRange rest (AList.update key v m) obj = Inr r"
        by (auto simp: cleanObjRange_step split: sum.splits)
      from Cons.IH[OF run nin] ne show ?thesis
        by (simp add: update_conv')
    qed
  qed
qed

lemma cleanObjRange_at:
  "cleanObjRange keys m obj = Inr r \<Longrightarrow> distinct keys \<Longrightarrow> k \<in> set keys \<Longrightarrow>
   map_of m k = Some new \<Longrightarrow> map_of obj k = Some old \<Longrightarrow>
   \<exists>v. cleanValue new old = Inr v \<and> map_of r k = Some v"
proof (induction keys arbitrary: m)
  case Nil
  then show ?case by simp
next
  case (Cons key rest)
  from Cons.prems(2) have dist: "distinct rest" and fresh: "key \<notin> set rest" by auto
  show ?case
  proof (cases "k = key")
    case True
    with Cons.prems obtain v where
      v: "cleanValue new old = Inr v"
      and run: "cleanObjRange rest (AList.update key v m) obj = Inr r"
      by (auto simp: cleanObjRange_step split: sum.splits)
    from cleanObjRange_frame[OF run fresh] True have "map_of r k = Some v"
      by (simp add: update_conv')
    with v show ?thesis by blast
  next
    case False
    with Cons.prems(3) have mem: "k \<in> set rest" by simp
    show ?thesis
    proof (cases "map_of m key")
      case None
      with Cons.prems(1) have "cleanObjRange rest m obj = Inr r"
        by (simp add: cleanObjRange_step)
      from Cons.IH[OF this dist mem Cons.prems(4,5)] show ?thesis .
    next
      case (Some new')
      show ?thesis
      proof (cases "map_of obj key")
        case None
        with Some Cons.prems(1) have "cleanObjRange rest m obj = Inr r"
          by (simp add: cleanObjRange_step)
        from Cons.IH[OF this dist mem Cons.prems(4,5)] show ?thesis .
      next
        case old': (Some old')
        from Some old' Cons.prems(1) obtain v' where
          run: "cleanObjRange rest (AList.update key v' m) obj = Inr r"
          by (auto simp: cleanObjRange_step split: sum.splits)
        from False Cons.prems(4) have "map_of (AList.update key v' m) k = Some new"
          by (simp add: update_conv')
        from Cons.IH[OF run dist mem this Cons.prems(5)] show ?thesis .
      qed
    qed
  qed
qed

lemma cleanArrayRange_length:
  "cleanArrayRange i arr obj = Inr r \<Longrightarrow> length r = length arr"
proof (induction "length arr - i" arbitrary: i arr)
  case 0
  then show ?case by (simp add: cleanArrayRange_step)
next
  case (Suc n)
  then have lt: "\<not> length arr \<le> i" by simp
  with Suc.prems obtain v where
    run: "cleanArrayRange (Suc i) (arr[i := v]) obj = Inr r"
    by (subst (asm) cleanArrayRange_step) (auto split: sum.splits)
  from Suc.hyps(2) have "n = length (arr[i := v]) - Suc i" by simp
  from Suc.hyps(1)[OF this run] show ?case by simp
qed

lemma cleanArrayRange_below:
  "cleanArrayRange i arr obj = Inr r \<Longrightarrow> j < i \<Longrightarrow> r ! j = arr ! j"
proof (induction "length arr - i" arbitrary: i arr)
  case 0
  then show ?case by (simp add: cleanArrayRange_step)
next
  case (Suc n)
  then have lt: "\<not> length arr \<le> i" by simp
  with Suc.prems obtain v where
    run: "cleanArrayRange (Suc i) (arr[i := v]) obj = Inr r"
    by (subst (asm) cleanArrayRange_step) (auto split: sum.splits)
  from Suc.hyps(2) have "n = length (arr[i := v]) - Suc i" by simp
  from Suc.hyps(1)[OF this run] Suc.prems(2) show ?case by simp
qed

lemma cleanArrayRange_at:
  "cleanArrayRange i arr obj = Inr r \<Longrightarrow> i \<le> j \<Longrightarrow> j < length arr \<Longrightarrow>
   \<exists>v. cleanElem (arr ! j) obj j = Inr v \<and> r ! j = v"
proof (induction "length arr - i" arbitrary: i arr)
  case 0
  then show ?case by simp
next
  case (Suc n)
  then have lt: "\<not> length arr \<le> i" by simp
  with Suc.prems obtain v where
    v: "cleanElem (arr ! i) obj i = Inr v"
    and run: "cleanArrayRange (Suc i) (arr[i := v]) obj = Inr r"
    by (subst (asm) cleanArrayRange_step) (auto split: sum.splits)
  from Suc.hyps(2) have n: "n = length (arr[i := v]) - Suc i" by simp
  show ?case
  proof (cases "j = i")
    case True
    from cleanArrayRange_below[OF run, of i] lt have "r ! i = v" by simp
    with v True show ?thesis by simp
  next
    case False
    with Suc.prems(2) have "Suc i \<le> j" by simp
    from Suc.hyps(1)[OF n run this] Suc.prems(3) False show ?thesis by simp
  qed
qed

lemma mapKeys_distinct: "distinct (mapKeys m)"
  by (simp add: mapKeys_def)

lemma mapKeys_mem: "map_of m k = Some v \<Longrightarrow> k \<in> set (mapKeys m)"
  by (auto simp: mapKeys_def dest: map_of_SomeD intro: rev_image_eqI)

lemma cleanReturnedObj_at:
  assumes "cleanReturnedObj newObj obj = Inr r"
    and "map_of newObj k = Some new" and "map_of obj k = Some old"
  shows "\<exists>v. cleanValue new old = Inr v \<and> map_of r k = Some v"
  using assms cleanObjRange_at[of "mapKeys obj" newObj obj r k new old]
  by (simp add: cleanReturnedObj.simps mapKeys_distinct mapKeys_mem)

lemma cleanReturnedObj_restores:
  assumes "cleanReturnedObj newObj obj = Inr r"
    and "map_of obj k = Some (JMap om)" and "map_of newObj k = Some (JList [])"
  shows "map_of r k = Some (JMap om)"
  using cleanReturnedObj_at[OF assms(1,3,2)] by (simp add: cleanValue_def)

lemma cleanReturnedArray_at:
  assumes "cleanReturnedArray newObj obj = Inr r" and "j < length newObj"
  shows "length r = length newObj \<and> (\<exists>v. cleanElem (newObj ! j) obj j = Inr v \<and> r ! j = v)"
  using assms cleanArrayRange_at[of 0 newObj obj r j] cleanArrayRange_length[of 0 newObj obj r]
  by (simp add: cleanReturnedArray.simps)

lemma pairedPath_sameShape: "pairedPath p new old = Some q \<Longrightarrow> sameShape new old"
  by (cases p) (auto split: if_splits)

lemma cleanElem_cleanValue:
  "sameShape a (obj ! i) \<Longrightarrow> i < length obj \<Longrightarrow> cleanElem a obj i = cleanValue a (obj ! i)"
  by (cases a; cases "obj ! i") (simp_all add: cleanElem_def cleanValue_def)

lemma cleanValue_nested:
  "cleanValue new old = Inr res \<Longrightarrow>
   pairedPath p new old = Some (JMap nm, JMap om) \<Longrightarrow>
   map_of nm k = Some (JList []) \<Longrightarrow> map_of om k = Some (JMap e) \<Longrightarrow>
   getPath (p @ [Key k]) res = Some (JMap e)"
proof (induction p arbitrary: new old res)
  case Nil
  from Nil.prems(2) have new: "new = JMap nm" and old: "old = JMap om"
    by (auto split: if_splits)
  with Nil.prems(1) obtain r where r: "cleanReturnedObj nm om = Inr r" and res: "res = JMap r"
    by (cases "cleanReturnedObj nm om") (auto simp: cleanValue_def)
  from cleanReturnedObj_restores[OF r Nil.prems(4,3)] res show ?case by simp
next
  case (Cons s p)
  from Cons.prems(2) obtain a b where
    shape: "sameShape new old" and a: "child s new = Some a" and b: "child s old = Some b"
    and rest: "pairedPath p a b = Some (JMap nm, JMap om)"
    by (auto split: if_splits option.splits)
  from pairedPath_sameShape[OF rest] have ab: "sameShape a b" .
  have "\<exists>v. cleanValue a b = Inr v \<and> child s res = Some v"
  proof (cases s)
    case (Key k')
    with a b shape obtain n m where new: "new = JMap n" and old: "old = JMap m"
      by (cases new; cases old) auto
    with Cons.prems(1) obtain r where r: "cleanReturnedObj n m = Inr r" and res: "res = JMap r"
      by (cases "cleanReturnedObj n m") (auto simp: cleanValue_def)
    from a b new old Key have "map_of n k' = Some a" "map_of m k' = Some b" by simp_all
    from cleanReturnedObj_at[OF r this] res Key show ?thesis by simp
  next
    case (Index i)
    with a b shape obtain n m where new: "new = JList n" and old: "old = JList m"
      by (cases new; cases old) auto
    with Cons.prems(1) obtain r where r: "cleanReturnedArray n m = Inr r" and res: "res = JList r"
      by (cases "cleanReturnedArray n m") (auto simp: cleanValue_def)
    from a b new old Index have i: "i < length n" "i < length m" "a = n ! i" "b = m ! i"
      by (auto split: if_splits)
    from cleanReturnedArray_at[OF r i(1)] obtain v where
      len: "length r = length n" and v: "cleanElem (n ! i) m i = Inr v" and rv: "r ! i = v"
      by blast
    from ab i have "cleanElem (n ! i) m i = cleanValue a b"
      by (simp add: cleanElem_cleanValue)
    with v rv len i res Index show ?thesis by simp
  qed
  then obtain v where v: "cleanValue a b = Inr v" and cv: "child s res = Some v" by blast
  from Cons.IH[OF v rest Cons.prems(3,4)] cv show ?case by simp
qed

lemma cleanImpactedResources_length:
  "cleanImpactedResources rs obj = Inr rs' \<Longrightarrow> length rs' = length rs"
  by (induction rs arbitrary: rs') (auto split: if_splits option.splits sum.splits)

lemma cleanImpactedResources_patch:
  "cleanImpactedResources rs obj = Inr rs' \<Longrightarrow> i < length rs \<Longrightarrow>
   K8SOperation (rs ! i) = PatchOperation \<Longrightarrow> UnstructuredObj (rs ! i) = Some newObj \<Longrightarrow>
   \<exists>r. cleanReturnedObj newObj obj = Inr r \<and>
       rs' ! i = (rs ! i)\<lparr>UnstructuredObj := Some r\<rparr>"
proof (induction rs arbitrary: rs' i)
  case Nil
  then show ?case by simp
next
  case (Cons a rs)
  from Cons.prems(1) obtain others where
    others: "cleanImpactedResources rs obj = Inr others"
    by (auto split: if_splits option.splits sum.splits)
  show ?case
  proof (cases i)
    case 0
    with Cons.prems show ?thesis
      by (auto split: if_splits option.splits sum.splits)
  next
    case (Suc j)
    with Cons.prems have j: "j < length rs" "K8SOperation (rs ! j) = PatchOperation"
      "UnstructuredObj (rs ! j) = Some newObj" by simp_all
    from Cons.IH[OF others j] obtain r where
      "cleanReturnedObj newObj obj = Inr r" "others ! j = (rs ! j)\<lparr>UnstructuredObj := Some r\<rparr>"
      by blast
    moreover from Cons.prems(1) others obtain a' where "rs' = a' # others"
      by (auto split: if_splits option.splits sum.splits)
    ultimately show ?thesis using Suc by simp
  qed
qed

lemma cleanImpactedResources_other:
  "cleanImpactedResources rs obj = Inr rs' \<Longrightarrow> i < length rs \<Longrightarrow>
   K8SOperation (rs ! i) \<noteq> PatchOperation \<Longrightarrow> rs' ! i = rs ! i"
proof (induction rs arbitrary: rs' i)
  case Nil
  then show ?case by simp
next
  case (Cons a rs)
  from Cons.prems(1) obtain others where
    others: "cleanImpactedResources rs obj = Inr others"
    by (auto split: if_splits option.splits sum.splits)
  show ?case
  proof (cases i)
    case 0
    with Cons.prems show ?thesis
      by (auto split: if_splits option.splits sum.splits)
  next
    case (Suc j)
    with Cons.prems have j: "j < length rs" "K8SOperation (rs ! j) \<noteq> PatchOperation"
      by simp_all
    from Cons.IH[OF others j] have "others ! j = rs ! j" .
    moreover from Cons.prems(1) others obtain a' where "rs' = a' # others"
      by (auto split: if_splits option.splits sum.splits)
    ultimately show ?thesis using Suc by simp
  qed
qed

text \<open>
  Where the cleaning pass returns, it restores maps under keys: a key that holds a map in
  the original object and the empty list in the returned one holds the original map in
  the result. The same holds for such a key at the end of any path of map keys and list
  indices along which returned and original value are both maps or both lists, and for
  the object of every patch-tagged entry in the result of the loop over the impacted
  resources.
\<close>

lemma cleaning_restores_where_it_returns:
  "(cleanReturnedObj newObj obj = Inr r \<and> map_of obj k = Some (JMap om) \<and>
      map_of newObj k = Some (JList [])
      \<longrightarrow> map_of r k = Some (JMap om))
   \<and> (cleanReturnedObj newObj obj = Inr r \<and>
        pairedPath p (JMap newObj) (JMap obj) = Some (JMap nm, JMap inner) \<and>
        map_of inner k = Some (JMap om) \<and> map_of nm k = Some (JList [])
        \<longrightarrow> getPath (p @ [Key k]) (JMap r) = Some (JMap om))
   \<and> (cleanImpactedResources rs obj = Inr rs' \<and> i < length rs \<and>
        K8SOperation (rs ! i) = PatchOperation \<and> UnstructuredObj (rs ! i) = Some newObj \<and>
        map_of obj k = Some (JMap om) \<and> map_of newObj k = Some (JList [])
        \<longrightarrow> (\<exists>c. UnstructuredObj (rs' ! i) = Some c \<and> map_of c k = Some (JMap om)))"
proof (intro conjI impI)
  assume "cleanReturnedObj newObj obj = Inr r \<and> map_of obj k = Some (JMap om) \<and>
      map_of newObj k = Some (JList [])"
  then show "map_of r k = Some (JMap om)"
    using cleanReturnedObj_restores by blast
next
  assume a: "cleanReturnedObj newObj obj = Inr r \<and>
        pairedPath p (JMap newObj) (JMap obj) = Some (JMap nm, JMap inner) \<and>
        map_of inner k = Some (JMap om) \<and> map_of nm k = Some (JList [])"
  then have "cleanValue (JMap newObj) (JMap obj) = Inr (JMap r)"
    by (simp add: cleanValue_def)
  from cleanValue_nested[OF this] a show "getPath (p @ [Key k]) (JMap r) = Some (JMap om)"
    by blast
next
  assume a: "cleanImpactedResources rs obj = Inr rs' \<and> i < length rs \<and>
        K8SOperation (rs ! i) = PatchOperation \<and> UnstructuredObj (rs ! i) = Some newObj \<and>
        map_of obj k = Some (JMap om) \<and> map_of newObj k = Some (JList [])"
  with cleanImpactedResources_patch[of rs obj rs' i newObj] obtain c where
    c: "cleanReturnedObj newObj obj = Inr c" "rs' ! i = (rs ! i)\<lparr>UnstructuredObj := Some c\<rparr>"
    by blast
  from cleanReturnedObj_restores[OF c(1)] a have "map_of c k = Some (JMap om)" by blast
  with c(2) show "\<exists>c. UnstructuredObj (rs' ! i) = Some c \<and> map_of c k = Some (JMap om)"
    by simp
qed

text \<open>
  Claim C1 says that the cleaning pass preserves empty maps for every original object and
  every patch-tagged result. The code does not. The original object holds \<^verbatim>\<open>{}\<close> under
  \<^verbatim>\<open>status\<close> and an empty list under \<^verbatim>\<open>items\<close>; the script adds one entry to \<^verbatim>\<open>items\<close> and
  returns the object, so \<^verbatim>\<open>status\<close> comes back as \<^verbatim>\<open>[]\<close>. \<^verbatim>\<open>cleanReturnedArray\<close> then reads
  \<^verbatim>\<open>obj[0]\<close> of the empty original list (lua.go, line 312): the pass ends in a panic, and so
  does \<^verbatim>\<open>ExecuteResourceAction\<close>, with no cleaned result. Where the returned list is shorter
  than the original one, as when the bridge drops a null element, the elements are
  compared at shifted indices: for the original \<^verbatim>\<open>{"items":[null,{"labels":{}}]}\<close> returned
  unchanged, \<^verbatim>\<open>labels\<close> comes back as \<^verbatim>\<open>[]\<close> at index 0 and is left as \<^verbatim>\<open>[]\<close>.
\<close>

theorem cleaning_breaks_on_longer_list:
  "map_of [(''status'', JMap []), (''items'', JList [])] ''status'' = Some (JMap [])
   \<and> map_of [(''status'', JList []), (''items'', JList [JMap [(''name'', JStr ''a'')]])]
        ''status'' = Some (JList [])
   \<and> cleanReturnedObj
        [(''status'', JList []), (''items'', JList [JMap [(''name'', JStr ''a'')]])]
        [(''status'', JMap []), (''items'', JList [])]
      = Inl (IndexOutOfRange 0 0)
   \<and> ExecuteResourceAction
        (nullRuntime
           \<lparr>doString := (\<lambda>useOpenLibs obj params script.
              Inr (LTable ''{\"status\":[],\"items\":[{\"name\":\"a\"}]}'')),
            unmarshalToUnstructured := (\<lambda>text.
              Inr (Some [(''status'', JList []),
                         (''items'', JList [JMap [(''name'', JStr ''a'')]])]))\<rparr>)
        \<lparr>ResourceOverrides = [], vmUseOpenLibs = False\<rparr>
        [(''status'', JMap []), (''items'', JList [])]
        ''obj.items = {{name = \"a\"}} return obj'' []
      = Inl (RuntimePanic (IndexOutOfRange 0 0))
   \<and> cleanReturnedObj
        [(''items'', JList [JMap [(''labels'', JList [])]])]
        [(''items'', JList [JNull, JMap [(''labels'', JMap [])]])]
      = Inr [(''items'', JList [JMap [(''labels'', JList [])]])]"
  by (simp add: ExecuteResourceAction_def nullRuntime_def runLuaWithResourceActionParameters_def
        cleanReturnedObj.simps cleanObjRange.simps cleanReturnedArray.simps
        cleanArrayRange.simps mapKeys_def)

text \<open>
  An empty list that is itself an element of a list is left as it is, also where the
  original element is an empty map: only values under map keys are restored.
\<close>

lemma cleanReturnedArray_keeps_empty_list_element:
  "cleanReturnedObj [(''items'', JList [JList []])] [(''items'', JList [JMap []])]
     = Inr [(''items'', JList [JList []])]"
  by (simp add: cleanReturnedObj.simps cleanObjRange.simps cleanReturnedArray.simps
        cleanArrayRange.simps mapKeys_def)

section \<open>Properties of health evaluation\<close>

text \<open>
  Claim C7. When the health script returns a table that encodes and decodes to a health
  status, \<^verbatim>\<open>ExecuteHealthLua\<close> returns no error: a status code outside Unknown,
  Progressing, Suspended, Healthy, Degraded and Missing gives the status Unknown with the
  fixed message \<^verbatim>\<open>Lua returned an invalid health status\<close>, and a status code inside the
  set is returned as decoded, message included.
\<close>

theorem invalid_status_becomes_unknown:
  "runLua rt vm obj script = Inr (LTable t) \<and> luajsonEncode rt t = Inr jsonBytes \<and>
   unmarshalHealthStatus rt jsonBytes = Inr healthStatus
   \<longrightarrow> ExecuteHealthLua rt vm obj script =
       (if Status healthStatus \<in>
             {''Unknown'', ''Progressing'', ''Suspended'', ''Healthy'', ''Degraded'', ''Missing''}
        then Inr healthStatus
        else Inr \<lparr>Status = ''Unknown'', Message = ''Lua returned an invalid health status''\<rparr>)"
  by (auto simp: ExecuteHealthLua_def isValidHealthStatusCode_def invalidHealthStatus_def
        HealthStatusUnknown_def HealthStatusProgressing_def HealthStatusSuspended_def
        HealthStatusHealthy_def HealthStatusDegraded_def HealthStatusMissing_def)

theorem invalid_status_becomes_unknown_witness:
  "ExecuteHealthLua
     (nullRuntime\<lparr>doString := (\<lambda>useOpenLibs obj params script. Inr (LTable ''{\"status\":\"Bogus\",\"message\":\"m\"}'')),
                   unmarshalHealthStatus := (\<lambda>text. Inr \<lparr>Status = ''Bogus'', Message = ''m''\<rparr>)\<rparr>)
     \<lparr>ResourceOverrides = [], vmUseOpenLibs = False\<rparr> [] ''return hs''
     = Inr \<lparr>Status = ''Unknown'', Message = ''Lua returned an invalid health status''\<rparr>
   \<and> ExecuteHealthLua
     (nullRuntime\<lparr>doString := (\<lambda>useOpenLibs obj params script. Inr (LTable ''{\"status\":\"Degraded\",\"message\":\"m\"}'')),
                   unmarshalHealthStatus := (\<lambda>text. Inr \<lparr>Status = ''Degraded'', Message = ''m''\<rparr>)\<rparr>)
     \<lparr>ResourceOverrides = [], vmUseOpenLibs = False\<rparr> [] ''return hs''
     = Inr \<lparr>Status = ''Degraded'', Message = ''m''\<rparr>"
  using invalid_status_becomes_unknown
    [of "nullRuntime\<lparr>doString := (\<lambda>useOpenLibs obj params script. Inr (LTable ''{\"status\":\"Bogus\",\"message\":\"m\"}'')),
                   unmarshalHealthStatus := (\<lambda>text. Inr \<lparr>Status = ''Bogus'', Message = ''m''\<rparr>)\<rparr>"
        "\<lparr>ResourceOverrides = [], vmUseOpenLibs = False\<rparr>" "[]" "''return hs''"
        "''{\"status\":\"Bogus\",\"message\":\"m\"}''" "''{\"status\":\"Bogus\",\"message\":\"m\"}''"
        "\<lparr>Status = ''Bogus'', Message = ''m''\<rparr>"]
    invalid_status_becomes_unknown
    [of "nullRuntime\<lparr>doString := (\<lambda>useOpenLibs obj params script. Inr (LTable ''{\"status\":\"Degraded\",\"message\":\"m\"}'')),
                   unmarshalHealthStatus := (\<lambda>text. Inr \<lparr>Status = ''Degraded'', Message = ''m''\<rparr>)\<rparr>"
        "\<lparr>ResourceOverrides = [], vmUseOpenLibs = False\<rparr>" "[]" "''return hs''"
        "''{\"status\":\"Degraded\",\"message\":\"m\"}''" "''{\"status\":\"Degraded\",\"message\":\"m\"}''"
        "\<lparr>Status = ''Degraded'', Message = ''m''\<rparr>"]
  by (simp add: nullRuntime_def runLua_def runLuaWithResourceActionParameters_def)

text \<open>
  Claim C8. A health script whose returned value is the interpreter's nil gives the
  zero-value health status (empty status code, empty message) and no error; a returned
  value that is neither a table nor nil gives the error
  \<^verbatim>\<open>expect table output from Lua script, not <type>\<close>, which names the expected shape and the
  actual type of the value.
\<close>

theorem nil_is_zero_other_is_error:
  "(runLua rt vm obj script = Inr LNil
      \<longrightarrow> ExecuteHealthLua rt vm obj script = Inr \<lparr>Status = [], Message = []\<rparr>)
   \<and> (runLua rt vm obj script = Inr returnValue \<and> returnValue \<noteq> LNil \<and>
        (\<forall>t. returnValue \<noteq> LTable t)
      \<longrightarrow> ExecuteHealthLua rt vm obj script =
            Inl (ErrorString (''expect table output from Lua script, not ''
                              @ typeString returnValue))
          \<and> typeString returnValue \<in>
              {''boolean'', ''number'', ''string'', ''function'', ''userdata'', ''thread'',
               ''channel''})"
  by (cases returnValue) (auto simp: ExecuteHealthLua_def incorrectReturnType_def)

theorem nil_is_zero_other_is_error_witness:
  "ExecuteHealthLua nullRuntime \<lparr>ResourceOverrides = [], vmUseOpenLibs = False\<rparr> []
       ''return nil'' = Inr \<lparr>Status = [], Message = []\<rparr>
   \<and> ExecuteHealthLua (nullRuntime\<lparr>doString := (\<lambda>useOpenLibs obj params script. Inr (LNumber 42))\<rparr>)
       \<lparr>ResourceOverrides = [], vmUseOpenLibs = False\<rparr> [] ''return 42''
     = Inl (ErrorString ''expect table output from Lua script, not number'')"
  using nil_is_zero_other_is_error
      [of nullRuntime "\<lparr>ResourceOverrides = [], vmUseOpenLibs = False\<rparr>" "[]" "''return nil''"]
    nil_is_zero_other_is_error
      [of "nullRuntime\<lparr>doString := (\<lambda>useOpenLibs obj params script. Inr (LNumber 42))\<rparr>"
          "\<lparr>ResourceOverrides = [], vmUseOpenLibs = False\<rparr>" "[]" "''return 42''"
          "LNumber 42"]
  by (simp add: nullRuntime_def runLua_def runLuaWithResourceActionParameters_def)

text \<open>
  Claim C4 says that a decode failure is tolerated only for the empty-aggregate ambiguity.
  The code tolerates every decode failure that is an unmarshal type error: the script
  \<^verbatim>\<open>return {status = 5}\<close> returns a non-empty table, its text \<^verbatim>\<open>{"status":5}\<close> fails to
  decode (a number where a string is expected), and \<^verbatim>\<open>ExecuteHealthLua\<close> returns the
  zero-value health status instead of the error.
\<close>

theorem type_error_tolerated_for_nonempty_table:
  "ExecuteHealthLua
     (nullRuntime\<lparr>doString := (\<lambda>useOpenLibs obj params script. Inr (LTable ''{\"status\":5}'')),
                   unmarshalHealthStatus :=
                     (\<lambda>text. Inl (JsonUnmarshalTypeError ''number'' ''status''))\<rparr>)
     \<lparr>ResourceOverrides = [], vmUseOpenLibs = False\<rparr> [] ''return {status = 5}''
   = Inr \<lparr>Status = [], Message = []\<rparr>"
  by (simp add: ExecuteHealthLua_def nullRuntime_def runLua_def
        runLuaWithResourceActionParameters_def)

section \<open>Properties of action discovery\<close>

lemma actionsRange_step:
  "actionsRange rt ((key, entry) # rest) acc =
     (if map_of acc key \<noteq> None then actionsRange rt rest acc
      else (case toResourceAction rt key entry of
              Inl err \<Rightarrow> Inl err
            | Inr ra \<Rightarrow> actionsRange rt rest (AList.update key ra acc)))"
  by (simp add: toResourceAction_def Let_def split: sum.splits)

lemma scriptsRange_step:
  "scriptsRange rt vm obj (script # rest) acc =
     (case scriptActions rt vm obj script of
        Inl err \<Rightarrow> Inl err
      | Inr entries \<Rightarrow>
          (case actionsRange rt entries acc of
             Inl err \<Rightarrow> Inl err
           | Inr merged \<Rightarrow> scriptsRange rt vm obj rest merged))"
  by (auto simp: scriptActions_def split: sum.splits LValue.splits)

declare actionsRange.simps(2) [simp del]
declare scriptsRange.simps(2) [simp del]

lemma actionsRange_preserves:
  "actionsRange rt es acc = Inr acc' \<Longrightarrow> map_of acc k = Some ra \<Longrightarrow> map_of acc' k = Some ra"
proof (induction es arbitrary: acc)
  case Nil
  then show ?case by simp
next
  case (Cons e es)
  obtain key entry where e: "e = (key, entry)" by (cases e)
  show ?case
  proof (cases "map_of acc key")
    case None
    with Cons.prems(2) have ne: "k \<noteq> key" by auto
    from None Cons.prems(1) e obtain new where
      run: "actionsRange rt es (AList.update key new acc) = Inr acc'"
      by (auto simp: actionsRange_step split: sum.splits)
    from ne Cons.prems(2) have "map_of (AList.update key new acc) k = Some ra"
      by (simp add: update_conv')
    from Cons.IH[OF run this] show ?thesis .
  next
    case (Some old)
    with Cons.prems(1) e have "actionsRange rt es acc = Inr acc'"
      by (simp add: actionsRange_step)
    from Cons.IH[OF this Cons.prems(2)] show ?thesis .
  qed
qed

lemma actionsRange_dom:
  "actionsRange rt es acc = Inr acc' \<Longrightarrow>
   fst ` set acc' = fst ` set acc \<union> fst ` set es"
proof (induction es arbitrary: acc)
  case Nil
  then show ?case by simp
next
  case (Cons e es)
  obtain key entry where e: "e = (key, entry)" by (cases e)
  show ?case
  proof (cases "map_of acc key")
    case None
    from None Cons.prems(1) e obtain new where
      run: "actionsRange rt es (AList.update key new acc) = Inr acc'"
      by (auto simp: actionsRange_step split: sum.splits)
    have "fst ` set (AList.update key new acc) = insert key (fst ` set acc)"
      by (simp add: dom_update)
    with Cons.IH[OF run] e show ?thesis by auto
  next
    case (Some old)
    with Cons.prems(1) e have run: "actionsRange rt es acc = Inr acc'"
      by (simp add: actionsRange_step)
    from Some have "key \<in> fst ` set acc"
      by (metis domI dom_map_of_conv_image_fst)
    with Cons.IH[OF run] e show ?thesis by auto
  qed
qed

lemma actionsRange_distinct:
  "actionsRange rt es acc = Inr acc' \<Longrightarrow> distinct (map fst acc) \<Longrightarrow> distinct (map fst acc')"
proof (induction es arbitrary: acc)
  case Nil
  then show ?case by simp
next
  case (Cons e es)
  obtain key entry where e: "e = (key, entry)" by (cases e)
  show ?case
  proof (cases "map_of acc key")
    case None
    from None Cons.prems(1) e obtain new where
      run: "actionsRange rt es (AList.update key new acc) = Inr acc'"
      by (auto simp: actionsRange_step split: sum.splits)
    from Cons.prems(2) have "distinct (map fst (AList.update key new acc))"
      by (rule distinct_update)
    from Cons.IH[OF run this] show ?thesis .
  next
    case (Some old)
    with Cons.prems(1) e have run: "actionsRange rt es acc = Inr acc'"
      by (simp add: actionsRange_step)
    from Cons.IH[OF run Cons.prems(2)] show ?thesis .
  qed
qed

lemma actionsRange_new:
  "actionsRange rt es acc = Inr acc' \<Longrightarrow> map_of acc k = None \<Longrightarrow>
   map_of es k = Some entry \<Longrightarrow>
   \<exists>ra. toResourceAction rt k entry = Inr ra \<and> map_of acc' k = Some ra"
proof (induction es arbitrary: acc)
  case Nil
  then show ?case by simp
next
  case (Cons e es)
  obtain key entry' where e: "e = (key, entry')" by (cases e)
  show ?case
  proof (cases "k = key")
    case True
    with Cons.prems(3) e have entry: "entry' = entry" by simp
    from True Cons.prems(1,2) e entry obtain ra where
      ra: "toResourceAction rt k entry = Inr ra"
      and run: "actionsRange rt es (AList.update k ra acc) = Inr acc'"
      by (auto simp: actionsRange_step split: sum.splits)
    have "map_of (AList.update k ra acc) k = Some ra" by (simp add: update_conv')
    from actionsRange_preserves[OF run this] ra show ?thesis by blast
  next
    case False
    with Cons.prems(3) e have later: "map_of es k = Some entry" by simp
    show ?thesis
    proof (cases "map_of acc key")
      case None
      from None Cons.prems(1) e obtain new where
        run: "actionsRange rt es (AList.update key new acc) = Inr acc'"
        by (auto simp: actionsRange_step split: sum.splits)
      from False Cons.prems(2) have "map_of (AList.update key new acc) k = None"
        by (simp add: update_conv')
      from Cons.IH[OF run this later] show ?thesis .
    next
      case (Some old)
      with Cons.prems(1) e have run: "actionsRange rt es acc = Inr acc'"
        by (simp add: actionsRange_step)
      from Cons.IH[OF run Cons.prems(2) later] show ?thesis .
    qed
  qed
qed

lemma actionsRange_absent:
  "actionsRange rt es acc = Inr acc' \<Longrightarrow> map_of acc k = None \<Longrightarrow>
   map_of es k = None \<Longrightarrow> map_of acc' k = None"
  using actionsRange_dom[of rt es acc acc']
  by (metis Un_iff domIff dom_map_of_conv_image_fst)


lemma scriptsRange_append:
  "scriptsRange rt vm obj (xs @ ys) acc =
     (case scriptsRange rt vm obj xs acc of
        Inl err \<Rightarrow> Inl err
      | Inr mid \<Rightarrow> scriptsRange rt vm obj ys mid)"
  by (induction xs arbitrary: acc) (auto simp: scriptsRange_step split: sum.splits)

lemma scriptsRange_preserves:
  "scriptsRange rt vm obj scripts acc = Inr acc' \<Longrightarrow> map_of acc k = Some ra \<Longrightarrow>
   map_of acc' k = Some ra"
proof (induction scripts arbitrary: acc)
  case Nil
  then show ?case by simp
next
  case (Cons script rest)
  from Cons.prems(1) obtain es merged where
    es: "scriptActions rt vm obj script = Inr es"
    and merged: "actionsRange rt es acc = Inr merged"
    and run: "scriptsRange rt vm obj rest merged = Inr acc'"
    by (auto simp: scriptsRange_step split: sum.splits)
  from actionsRange_preserves[OF merged Cons.prems(2)] have "map_of merged k = Some ra" .
  from Cons.IH[OF run this] show ?case .
qed

lemma scriptsRange_dom:
  "scriptsRange rt vm obj scripts acc = Inr acc' \<Longrightarrow>
   fst ` set acc' = fst ` set acc \<union> (\<Union>script \<in> set scripts. scriptNames rt vm obj script)"
proof (induction scripts arbitrary: acc)
  case Nil
  then show ?case by simp
next
  case (Cons script rest)
  from Cons.prems(1) obtain es merged where
    es: "scriptActions rt vm obj script = Inr es"
    and merged: "actionsRange rt es acc = Inr merged"
    and run: "scriptsRange rt vm obj rest merged = Inr acc'"
    by (auto simp: scriptsRange_step split: sum.splits)
  from actionsRange_dom[OF merged] es
  have "fst ` set merged = fst ` set acc \<union> scriptNames rt vm obj script"
    by (simp add: scriptNames_def)
  with Cons.IH[OF run] show ?case by auto
qed

lemma scriptsRange_distinct:
  "scriptsRange rt vm obj scripts acc = Inr acc' \<Longrightarrow> distinct (map fst acc) \<Longrightarrow>
   distinct (map fst acc')"
proof (induction scripts arbitrary: acc)
  case Nil
  then show ?case by simp
next
  case (Cons script rest)
  from Cons.prems(1) obtain es merged where
    merged: "actionsRange rt es acc = Inr merged"
    and run: "scriptsRange rt vm obj rest merged = Inr acc'"
    by (auto simp: scriptsRange_step split: sum.splits)
  from Cons.IH[OF run actionsRange_distinct[OF merged Cons.prems(2)]] show ?case .
qed

lemma scriptsRange_earliest:
  "scriptsRange rt vm obj scripts acc = Inr acc' \<Longrightarrow> map_of acc k = None \<Longrightarrow>
   map_of acc' k = Some ra \<Longrightarrow>
   \<exists>i es entry. i < length scripts \<and>
      scriptActions rt vm obj (scripts ! i) = Inr es \<and> map_of es k = Some entry \<and>
      toResourceAction rt k entry = Inr ra \<and>
      (\<forall>j<i. \<exists>es'. scriptActions rt vm obj (scripts ! j) = Inr es' \<and> map_of es' k = None)"
proof (induction scripts arbitrary: acc)
  case Nil
  then show ?case by simp
next
  case (Cons script rest)
  from Cons.prems(1) obtain es merged where
    es: "scriptActions rt vm obj script = Inr es"
    and merged: "actionsRange rt es acc = Inr merged"
    and run: "scriptsRange rt vm obj rest merged = Inr acc'"
    by (auto simp: scriptsRange_step split: sum.splits)
  show ?case
  proof (cases "map_of es k")
    case None
    from actionsRange_absent[OF merged Cons.prems(2) None] have "map_of merged k = None" .
    from Cons.IH[OF run this Cons.prems(3)] obtain i es' entry where
      i: "i < length rest" "scriptActions rt vm obj (rest ! i) = Inr es'"
         "map_of es' k = Some entry" "toResourceAction rt k entry = Inr ra"
         "\<forall>j<i. \<exists>es''. scriptActions rt vm obj (rest ! j) = Inr es'' \<and> map_of es'' k = None"
      by blast
    have "\<forall>j<Suc i. \<exists>es''. scriptActions rt vm obj ((script # rest) ! j) = Inr es'' \<and>
            map_of es'' k = None"
    proof (intro allI impI)
      fix j assume "j < Suc i"
      then show "\<exists>es''. scriptActions rt vm obj ((script # rest) ! j) = Inr es'' \<and>
            map_of es'' k = None"
        using es None i(5) by (cases j) auto
    qed
    with i(1-4) show ?thesis
      by (intro exI[of _ "Suc i"] exI[of _ es'] exI[of _ entry]) simp
  next
    case (Some entry)
    from actionsRange_new[OF merged Cons.prems(2) Some] obtain ra' where
      ra': "toResourceAction rt k entry = Inr ra'" "map_of merged k = Some ra'"
      by blast
    from scriptsRange_preserves[OF run ra'(2)] Cons.prems(3) have "ra' = ra" by simp
    with ra'(1) es Some show ?thesis
      by (intro exI[of _ 0] exI[of _ es] exI[of _ entry]) simp
  qed
qed

lemma toResourceAction_name:
  assumes "\<And>text ra ra'. unmarshalResourceAction rt text ra = Inr ra' \<Longrightarrow> Name ra' = Name ra"
    and "toResourceAction rt k entry = Inr ra"
  shows "Name ra = k"
  using assms(2) assms(1)
  by (auto simp: toResourceAction_def Let_def split: if_splits sum.splits)


text \<open>
  Claim C5. The accumulator of action discovery is first-writer-wins. Splitting the script
  list at any point, every entry the accumulator holds after the earlier scripts is still
  there, unchanged, after the later ones. When discovery succeeds, the result lists the
  values of an accumulator with one entry per name; its names are exactly the names the
  scripts contribute; and the descriptor under a name is the one computed from the entry
  of the earliest script that defines the name.
\<close>

theorem discovery_first_writer_wins:
  "(scriptsRange rt vm obj (earlier @ later) [] = Inr final
      \<longrightarrow> (\<exists>mid. scriptsRange rt vm obj earlier [] = Inr mid \<and>
                 scriptsRange rt vm obj later mid = Inr final \<and>
                 (\<forall>k ra. map_of mid k = Some ra \<longrightarrow> map_of final k = Some ra)))
   \<and> (ExecuteResourceActionDiscovery rt vm obj scripts = Inr actions
      \<longrightarrow> (\<exists>final. scriptsRange rt vm obj scripts [] = Inr final \<and>
             actions = map snd final \<and> distinct (map fst final) \<and>
             fst ` set final = (\<Union>script \<in> set scripts. scriptNames rt vm obj script) \<and>
             (\<forall>k ra. map_of final k = Some ra \<longrightarrow>
                (\<exists>i es entry. i < length scripts \<and>
                   scriptActions rt vm obj (scripts ! i) = Inr es \<and>
                   map_of es k = Some entry \<and> toResourceAction rt k entry = Inr ra \<and>
                   (\<forall>j<i. \<exists>es'. scriptActions rt vm obj (scripts ! j) = Inr es' \<and>
                              map_of es' k = None)))))"
proof (intro conjI impI)
  assume run: "scriptsRange rt vm obj (earlier @ later) [] = Inr final"
  then obtain mid where
    mid: "scriptsRange rt vm obj earlier [] = Inr mid"
    and rest: "scriptsRange rt vm obj later mid = Inr final"
    by (auto simp: scriptsRange_append split: sum.splits)
  from scriptsRange_preserves[OF rest]
  have "\<forall>k ra. map_of mid k = Some ra \<longrightarrow> map_of final k = Some ra" by blast
  with mid rest show "\<exists>mid. scriptsRange rt vm obj earlier [] = Inr mid \<and>
                 scriptsRange rt vm obj later mid = Inr final \<and>
                 (\<forall>k ra. map_of mid k = Some ra \<longrightarrow> map_of final k = Some ra)"
    by blast
next
  assume "ExecuteResourceActionDiscovery rt vm obj scripts = Inr actions"
  then obtain final where
    run: "scriptsRange rt vm obj scripts [] = Inr final"
    and actions: "actions = map snd (mapEntries final)"
    by (auto simp: ExecuteResourceActionDiscovery_def split: if_splits sum.splits)
  from scriptsRange_distinct[OF run] have dist: "distinct (map fst final)" by simp
  with actions have a: "actions = map snd final" by (simp add: mapEntries_def)
  from scriptsRange_dom[OF run]
  have names: "fst ` set final = (\<Union>script \<in> set scripts. scriptNames rt vm obj script)"
    by simp
  have early: "\<forall>k ra. map_of final k = Some ra \<longrightarrow>
                (\<exists>i es entry. i < length scripts \<and>
                   scriptActions rt vm obj (scripts ! i) = Inr es \<and>
                   map_of es k = Some entry \<and> toResourceAction rt k entry = Inr ra \<and>
                   (\<forall>j<i. \<exists>es'. scriptActions rt vm obj (scripts ! j) = Inr es' \<and>
                              map_of es' k = None))"
    using scriptsRange_earliest[OF run] by simp
  from run a dist names early
  show "\<exists>final. scriptsRange rt vm obj scripts [] = Inr final \<and>
             actions = map snd final \<and> distinct (map fst final) \<and>
             fst ` set final = (\<Union>script \<in> set scripts. scriptNames rt vm obj script) \<and>
             (\<forall>k ra. map_of final k = Some ra \<longrightarrow>
                (\<exists>i es entry. i < length scripts \<and>
                   scriptActions rt vm obj (scripts ! i) = Inr es \<and>
                   map_of es k = Some entry \<and> toResourceAction rt k entry = Inr ra \<and>
                   (\<forall>j<i. \<exists>es'. scriptActions rt vm obj (scripts ! j) = Inr es' \<and>
                              map_of es' k = None)))"
    by blast
qed

lemma discoveryDemo_run:
  "scriptsRange discoveryDemo \<lparr>ResourceOverrides = [], vmUseOpenLibs = False\<rparr> []
       [''user'', ''builtin''] []
     = Inr [(''restart'', \<lparr>Name = ''restart'', Disabled = True\<rparr>),
            (''scale'', \<lparr>Name = ''scale'', Disabled = False\<rparr>)]"
  "scriptsRange discoveryDemo \<lparr>ResourceOverrides = [], vmUseOpenLibs = False\<rparr> []
       [''builtin'', ''user''] []
     = Inr [(''restart'', \<lparr>Name = ''restart'', Disabled = False\<rparr>),
            (''scale'', \<lparr>Name = ''scale'', Disabled = False\<rparr>)]"
  by (simp_all add: scriptsRange.simps actionsRange.simps discoveryDemo_def nullRuntime_def
        runLua_def runLuaWithResourceActionParameters_def noAvailableActions_def
        mapEntries_def isActionDisabled_def emptyResourceActionFromLua_def Let_def)


lemma discoveryDemo_user:
  "scriptsRange discoveryDemo \<lparr>ResourceOverrides = [], vmUseOpenLibs = False\<rparr> []
       [''user''] []
     = Inr [(''restart'', \<lparr>Name = ''restart'', Disabled = True\<rparr>)]"
  by (simp add: scriptsRange.simps actionsRange.simps discoveryDemo_def nullRuntime_def
        runLua_def runLuaWithResourceActionParameters_def noAvailableActions_def
        mapEntries_def isActionDisabled_def emptyResourceActionFromLua_def Let_def)

theorem discovery_first_writer_wins_witness:
  "ExecuteResourceActionDiscovery discoveryDemo
       \<lparr>ResourceOverrides = [], vmUseOpenLibs = False\<rparr> [] [''user'', ''builtin'']
     = Inr [\<lparr>Name = ''restart'', Disabled = True\<rparr>, \<lparr>Name = ''scale'', Disabled = False\<rparr>]
   \<and> (\<exists>mid. scriptsRange discoveryDemo \<lparr>ResourceOverrides = [], vmUseOpenLibs = False\<rparr> []
                 [''user''] [] = Inr mid \<and>
              map_of mid ''restart'' = Some \<lparr>Name = ''restart'', Disabled = True\<rparr> \<and>
              scriptsRange discoveryDemo \<lparr>ResourceOverrides = [], vmUseOpenLibs = False\<rparr> []
                 [''builtin''] mid
                = Inr [(''restart'', \<lparr>Name = ''restart'', Disabled = True\<rparr>),
                       (''scale'', \<lparr>Name = ''scale'', Disabled = False\<rparr>)])
   \<and> (\<exists>final. scriptsRange discoveryDemo \<lparr>ResourceOverrides = [], vmUseOpenLibs = False\<rparr> []
                  [''user'', ''builtin''] [] = Inr final \<and>
               distinct (map fst final) \<and>
               map_of final ''restart'' = Some \<lparr>Name = ''restart'', Disabled = True\<rparr>)"
proof -
  let ?vm = "\<lparr>ResourceOverrides = [], vmUseOpenLibs = False\<rparr>"
  let ?final = "[(''restart'', \<lparr>Name = ''restart'', Disabled = True\<rparr>),
                 (''scale'', \<lparr>Name = ''scale'', Disabled = False\<rparr>)]"
  let ?actions = "[\<lparr>Name = ''restart'', Disabled = True\<rparr>,
                   \<lparr>Name = ''scale'', Disabled = False\<rparr>]"
  have run: "scriptsRange discoveryDemo ?vm [] ([''user''] @ [''builtin'']) [] = Inr ?final"
    using discoveryDemo_run(1) by simp
  have all: "ExecuteResourceActionDiscovery discoveryDemo ?vm [] [''user'', ''builtin'']
      = Inr ?actions"
    using discoveryDemo_run(1) by (simp add: ExecuteResourceActionDiscovery_def mapEntries_def)
  note inst = discovery_first_writer_wins
    [of discoveryDemo ?vm "[]" "[''user'']" "[''builtin'']" ?final "[''user'', ''builtin'']"
        ?actions]
  from inst[THEN conjunct1, THEN mp, OF run] obtain mid where
    mid: "scriptsRange discoveryDemo ?vm [] [''user''] [] = Inr mid"
    and rest: "scriptsRange discoveryDemo ?vm [] [''builtin''] mid = Inr ?final"
    by blast
  from mid have "map_of mid ''restart'' = Some \<lparr>Name = ''restart'', Disabled = True\<rparr>"
    by (auto simp: discoveryDemo_user)
  with mid rest have a: "\<exists>mid. scriptsRange discoveryDemo ?vm [] [''user''] [] = Inr mid \<and>
              map_of mid ''restart'' = Some \<lparr>Name = ''restart'', Disabled = True\<rparr> \<and>
              scriptsRange discoveryDemo ?vm [] [''builtin''] mid = Inr ?final"
    by blast
  from inst[THEN conjunct2, THEN mp, OF all] obtain final where
    final: "scriptsRange discoveryDemo ?vm [] [''user'', ''builtin''] [] = Inr final"
    and dist: "distinct (map fst final)"
    by blast
  from final have "map_of final ''restart'' = Some \<lparr>Name = ''restart'', Disabled = True\<rparr>"
    by (auto simp: discoveryDemo_run(1))
  with final dist have b: "\<exists>final. scriptsRange discoveryDemo ?vm [] [''user'', ''builtin''] []
        = Inr final \<and> distinct (map fst final) \<and>
      map_of final ''restart'' = Some \<lparr>Name = ''restart'', Disabled = True\<rparr>"
    by blast
  from all a b show ?thesis by blast
qed

text \<open>
  The names under which the scripts define actions, the keys of the accumulator, do not
  depend on the order of the scripts.
\<close>

lemma discovery_keys_permutation_invariant:
  assumes "mset scripts = mset scripts'"
    and "scriptsRange rt vm obj scripts [] = Inr final"
    and "scriptsRange rt vm obj scripts' [] = Inr final'"
  shows "fst ` set final = fst ` set final'"
proof -
  from assms(1) have "set scripts = set scripts'" by (metis set_mset_mset)
  with scriptsRange_dom[OF assms(2)] scriptsRange_dom[OF assms(3)] show ?thesis by simp
qed

lemma discovery_names_subset:
  assumes run: "scriptsRange rt vm obj scripts [] = Inr final"
    and run': "scriptsRange rt vm obj scripts' [] = Inr final'"
    and same: "set scripts = set scripts'"
    and agree: "\<forall>s1 \<in> set scripts. \<forall>s2 \<in> set scripts. \<forall>es1 es2 k e1 e2 ra1 ra2.
        scriptActions rt vm obj s1 = Inr es1 \<and> map_of es1 k = Some e1 \<and>
        toResourceAction rt k e1 = Inr ra1 \<and>
        scriptActions rt vm obj s2 = Inr es2 \<and> map_of es2 k = Some e2 \<and>
        toResourceAction rt k e2 = Inr ra2
        \<longrightarrow> Name ra1 = Name ra2"
  shows "Name ` snd ` set final \<subseteq> Name ` snd ` set final'"
proof
  fix n assume "n \<in> Name ` snd ` set final"
  then obtain k ra where kra: "(k, ra) \<in> set final" and n: "n = Name ra" by auto
  from scriptsRange_distinct[OF run] have dist: "distinct (map fst final)" by simp
  from scriptsRange_distinct[OF run'] have dist': "distinct (map fst final')" by simp
  from kra dist have look: "map_of final k = Some ra" by simp
  from scriptsRange_earliest[OF run _ look] obtain i es1 e1 where
    i: "i < length scripts" "scriptActions rt vm obj (scripts ! i) = Inr es1"
       "map_of es1 k = Some e1" "toResourceAction rt k e1 = Inr ra"
    by auto
  from kra have "k \<in> fst ` set final" by force
  with scriptsRange_dom[OF run] scriptsRange_dom[OF run'] same
  have "k \<in> fst ` set final'" by simp
  then obtain ra' where kra': "(k, ra') \<in> set final'" by auto
  with dist' have look': "map_of final' k = Some ra'" by simp
  from scriptsRange_earliest[OF run' _ look'] obtain j es2 e2 where
    j: "j < length scripts'" "scriptActions rt vm obj (scripts' ! j) = Inr es2"
       "map_of es2 k = Some e2" "toResourceAction rt k e2 = Inr ra'"
    by auto
  from i(1) have m1: "scripts ! i \<in> set scripts" by simp
  from j(1) same have m2: "scripts' ! j \<in> set scripts" by simp
  from agree m1 m2 i(2-4) j(2-4) have "Name ra = Name ra'" by blast
  with n kra' show "n \<in> Name ` snd ` set final'" by force
qed

text \<open>
  Claim C6 says that the set of action names discovery produces is the same for every
  order of the scripts. The names produced are those the returned descriptors carry, and
  a descriptor is decoded from its entry over the name prepared from the key (lua.go,
  lines 354 and 367), so an entry that has a name of its own replaces it. With one script
  whose entry under \<^verbatim>\<open>restart\<close> names itself \<^verbatim>\<open>reboot\<close> and one whose entry under
  \<^verbatim>\<open>restart\<close> has no name, the result is \<^verbatim>\<open>reboot\<close> in one order and \<^verbatim>\<open>restart\<close> in the
  other.
\<close>

theorem discovery_names_depend_on_order:
  "mset [''renamed'', ''plain''] = mset [''plain'', ''renamed'']
   \<and> ExecuteResourceActionDiscovery renamingDemo
        \<lparr>ResourceOverrides = [], vmUseOpenLibs = False\<rparr> [] [''renamed'', ''plain'']
      = Inr [\<lparr>Name = ''reboot'', Disabled = False\<rparr>]
   \<and> ExecuteResourceActionDiscovery renamingDemo
        \<lparr>ResourceOverrides = [], vmUseOpenLibs = False\<rparr> [] [''plain'', ''renamed'']
      = Inr [\<lparr>Name = ''restart'', Disabled = False\<rparr>]
   \<and> Name ` set [\<lparr>Name = ''reboot'', Disabled = False\<rparr>]
      \<noteq> Name ` set [\<lparr>Name = ''restart'', Disabled = False\<rparr>]"
  by (simp add: ExecuteResourceActionDiscovery_def scriptsRange.simps actionsRange.simps
        renamingDemo_def nullRuntime_def runLua_def runLuaWithResourceActionParameters_def
        noAvailableActions_def mapEntries_def isActionDisabled_def
        emptyResourceActionFromLua_def Let_def)

text \<open>
  Claim C6, amended. When discovery succeeds on a list of scripts and on a permutation of
  it, and any two entries that the scripts define under the same key decode to
  descriptors of the same name (as they do when no entry renames itself), the returned
  descriptors carry the same set of names for both orders.
\<close>

theorem discovery_names_permutation_invariant:
  "mset scripts = mset scripts' \<and>
   ExecuteResourceActionDiscovery rt vm obj scripts = Inr actions \<and>
   ExecuteResourceActionDiscovery rt vm obj scripts' = Inr actions' \<and>
   (\<forall>s1 \<in> set scripts. \<forall>s2 \<in> set scripts. \<forall>es1 es2 k e1 e2 ra1 ra2.
      scriptActions rt vm obj s1 = Inr es1 \<and> map_of es1 k = Some e1 \<and>
      toResourceAction rt k e1 = Inr ra1 \<and>
      scriptActions rt vm obj s2 = Inr es2 \<and> map_of es2 k = Some e2 \<and>
      toResourceAction rt k e2 = Inr ra2
      \<longrightarrow> Name ra1 = Name ra2)
   \<longrightarrow> Name ` set actions = Name ` set actions'"
proof
  assume a: "mset scripts = mset scripts' \<and>
   ExecuteResourceActionDiscovery rt vm obj scripts = Inr actions \<and>
   ExecuteResourceActionDiscovery rt vm obj scripts' = Inr actions' \<and>
   (\<forall>s1 \<in> set scripts. \<forall>s2 \<in> set scripts. \<forall>es1 es2 k e1 e2 ra1 ra2.
      scriptActions rt vm obj s1 = Inr es1 \<and> map_of es1 k = Some e1 \<and>
      toResourceAction rt k e1 = Inr ra1 \<and>
      scriptActions rt vm obj s2 = Inr es2 \<and> map_of es2 k = Some e2 \<and>
      toResourceAction rt k e2 = Inr ra2
      \<longrightarrow> Name ra1 = Name ra2)"
  then have same: "set scripts = set scripts'" by (metis set_mset_mset)
  from a have agree: "\<forall>s1 \<in> set scripts. \<forall>s2 \<in> set scripts. \<forall>es1 es2 k e1 e2 ra1 ra2.
      scriptActions rt vm obj s1 = Inr es1 \<and> map_of es1 k = Some e1 \<and>
      toResourceAction rt k e1 = Inr ra1 \<and>
      scriptActions rt vm obj s2 = Inr es2 \<and> map_of es2 k = Some e2 \<and>
      toResourceAction rt k e2 = Inr ra2
      \<longrightarrow> Name ra1 = Name ra2" by (elim conjE)
  with same have agree': "\<forall>s1 \<in> set scripts'. \<forall>s2 \<in> set scripts'. \<forall>es1 es2 k e1 e2 ra1 ra2.
      scriptActions rt vm obj s1 = Inr es1 \<and> map_of es1 k = Some e1 \<and>
      toResourceAction rt k e1 = Inr ra1 \<and>
      scriptActions rt vm obj s2 = Inr es2 \<and> map_of es2 k = Some e2 \<and>
      toResourceAction rt k e2 = Inr ra2
      \<longrightarrow> Name ra1 = Name ra2" by simp
  from a obtain fin fin' where
    f: "scriptsRange rt vm obj scripts [] = Inr fin" "actions = map snd (mapEntries fin)"
       "scriptsRange rt vm obj scripts' [] = Inr fin'" "actions' = map snd (mapEntries fin')"
    by (auto simp: ExecuteResourceActionDiscovery_def split: if_splits sum.splits)
  from scriptsRange_distinct[OF f(1)] f(2) have act: "set actions = snd ` set fin"
    by (simp add: mapEntries_def)
  from scriptsRange_distinct[OF f(3)] f(4) have act': "set actions' = snd ` set fin'"
    by (simp add: mapEntries_def)
  from discovery_names_subset[OF f(1) f(3) same agree]
    discovery_names_subset[OF f(3) f(1) same[symmetric] agree']
  have "Name ` snd ` set fin = Name ` snd ` set fin'" by (rule subset_antisym)
  with act act' show "Name ` set actions = Name ` set actions'" by simp
qed

theorem discovery_names_permutation_invariant_witness:
  "mset [''user'', ''builtin''] = mset [''builtin'', ''user'']
   \<and> ExecuteResourceActionDiscovery discoveryDemo
       \<lparr>ResourceOverrides = [], vmUseOpenLibs = False\<rparr> [] [''user'', ''builtin'']
     = Inr [\<lparr>Name = ''restart'', Disabled = True\<rparr>, \<lparr>Name = ''scale'', Disabled = False\<rparr>]
   \<and> ExecuteResourceActionDiscovery discoveryDemo
       \<lparr>ResourceOverrides = [], vmUseOpenLibs = False\<rparr> [] [''builtin'', ''user'']
     = Inr [\<lparr>Name = ''restart'', Disabled = False\<rparr>, \<lparr>Name = ''scale'', Disabled = False\<rparr>]
   \<and> Name ` set [\<lparr>Name = ''restart'', Disabled = True\<rparr>, \<lparr>Name = ''scale'', Disabled = False\<rparr>]
     = Name ` set [\<lparr>Name = ''restart'', Disabled = False\<rparr>,
                   \<lparr>Name = ''scale'', Disabled = False\<rparr>]"
proof -
  let ?vm = "\<lparr>ResourceOverrides = [], vmUseOpenLibs = False\<rparr>"
  let ?a = "[\<lparr>Name = ''restart'', Disabled = True\<rparr>, \<lparr>Name = ''scale'', Disabled = False\<rparr>]"
  let ?b = "[\<lparr>Name = ''restart'', Disabled = False\<rparr>, \<lparr>Name = ''scale'', Disabled = False\<rparr>]"
  have p: "mset [''user'', ''builtin''] = mset [''builtin'', ''user'']" by simp
  have e1: "ExecuteResourceActionDiscovery discoveryDemo ?vm [] [''user'', ''builtin''] = Inr ?a"
    using discoveryDemo_run(1) by (simp add: ExecuteResourceActionDiscovery_def mapEntries_def)
  have e2: "ExecuteResourceActionDiscovery discoveryDemo ?vm [] [''builtin'', ''user''] = Inr ?b"
    using discoveryDemo_run(2) by (simp add: ExecuteResourceActionDiscovery_def mapEntries_def)
  have keep: "\<And>text ra ra'. unmarshalResourceAction discoveryDemo text ra = Inr ra' \<Longrightarrow>
      Name ra' = Name ra"
    by (simp add: discoveryDemo_def split: if_splits)
  have ag: "\<forall>s1 \<in> set [''user'', ''builtin'']. \<forall>s2 \<in> set [''user'', ''builtin''].
      \<forall>es1 es2 k e1 e2 ra1 ra2.
      scriptActions discoveryDemo ?vm [] s1 = Inr es1 \<and> map_of es1 k = Some e1 \<and>
      toResourceAction discoveryDemo k e1 = Inr ra1 \<and>
      scriptActions discoveryDemo ?vm [] s2 = Inr es2 \<and> map_of es2 k = Some e2 \<and>
      toResourceAction discoveryDemo k e2 = Inr ra2
      \<longrightarrow> Name ra1 = Name ra2"
  proof (intro ballI allI impI)
    fix s1 s2 es1 es2 k e1 e2 ra1 ra2
    assume h: "scriptActions discoveryDemo ?vm [] s1 = Inr es1 \<and> map_of es1 k = Some e1 \<and>
      toResourceAction discoveryDemo k e1 = Inr ra1 \<and>
      scriptActions discoveryDemo ?vm [] s2 = Inr es2 \<and> map_of es2 k = Some e2 \<and>
      toResourceAction discoveryDemo k e2 = Inr ra2"
    then have "toResourceAction discoveryDemo k e1 = Inr ra1"
      "toResourceAction discoveryDemo k e2 = Inr ra2" by simp_all
    from toResourceAction_name[OF keep this(1)] toResourceAction_name[OF keep this(2)]
    show "Name ra1 = Name ra2" by simp
  qed
  from discovery_names_permutation_invariant
    [of "[''user'', ''builtin'']" "[''builtin'', ''user'']" discoveryDemo ?vm "[]" ?a ?b,
     THEN mp, OF conjI[OF p conjI[OF e1 conjI[OF e2 ag]]]]
  have n: "Name ` set ?a = Name ` set ?b" .
  from p e1 e2 n show ?thesis by (intro conjI)
qed

text \<open>
  Whether discovery succeeds can depend on the order: a script whose entry under a name
  does not decode is harmless after a script that has stored the name, and fails the call
  before it.
\<close>

lemma discovery_success_depends_on_order:
  "scriptsRange discoveryDemo \<lparr>ResourceOverrides = [], vmUseOpenLibs = False\<rparr> []
       [''user'', ''broken''] []
     = Inr [(''restart'', \<lparr>Name = ''restart'', Disabled = True\<rparr>)]"
  "scriptsRange discoveryDemo \<lparr>ResourceOverrides = [], vmUseOpenLibs = False\<rparr> []
       [''broken'', ''user''] []
     = Inl (Wrapf ''error unmarshaling resource action'' (JsonUnmarshalTypeError ''string'' []))"
  by (simp_all add: scriptsRange.simps actionsRange.simps discoveryDemo_def nullRuntime_def
        runLua_def runLuaWithResourceActionParameters_def noAvailableActions_def
        mapEntries_def isActionDisabled_def emptyResourceActionFromLua_def Let_def)

text \<open>
  Claim C10. \<^verbatim>\<open>ExecuteResourceActionDiscovery\<close> called with no script returns the error
  \<^verbatim>\<open>no action discovery script provided\<close>, for every object; and resolution can give the
  empty list: \<^verbatim>\<open>GetResourceActionDiscovery\<close> returns it, without error, when the overrides
  have no entry for the resource key and the catalog has no discovery script for it.
\<close>

theorem discovery_without_scripts_is_error:
  "ExecuteResourceActionDiscovery rt vm obj [] =
     Inl (ErrorString ''no action discovery script provided'')
   \<and> (map_of (ResourceOverrides vm) (GetConfigMapKey gvk) = None \<and>
      embeddedReadFile rt
        (filepathJoin rt (GetConfigMapKey gvk @ ''/actions/'') ''discovery.lua'') = NotExist
      \<longrightarrow> GetResourceActionDiscovery rt vm gvk = Inr [])"
  by (simp add: ExecuteResourceActionDiscovery_def GetResourceActionDiscovery_def
        getPredefinedLuaScripts_def actionDiscoveryScriptFile_def)

theorem discovery_without_scripts_is_error_witness:
  "GetResourceActionDiscovery nullRuntime \<lparr>ResourceOverrides = [], vmUseOpenLibs = False\<rparr>
      \<lparr>Group = ''apps'', Version = ''v1'', Kind = ''Deployment''\<rparr> = Inr []
   \<and> ExecuteResourceActionDiscovery nullRuntime
        \<lparr>ResourceOverrides = [], vmUseOpenLibs = False\<rparr> [(''kind'', JStr ''Deployment'')] []
      = Inl (ErrorString ''no action discovery script provided'')"
  using discovery_without_scripts_is_error
      [of nullRuntime "\<lparr>ResourceOverrides = [], vmUseOpenLibs = False\<rparr>"
          "[(''kind'', JStr ''Deployment'')]"
          "\<lparr>Group = ''apps'', Version = ''v1'', Kind = ''Deployment''\<rparr>"]
  by (simp add: nullRuntime_def)

section \<open>Properties of action execution\<close>

lemma cleanImpactedResources_patch_object:
  "cleanImpactedResources rs obj = Inr rs' \<Longrightarrow> i < length rs \<Longrightarrow>
   K8SOperation (rs ! i) = PatchOperation \<Longrightarrow> UnstructuredObj (rs ! i) \<noteq> None"
proof (induction rs arbitrary: rs' i)
  case Nil
  then show ?case by simp
next
  case (Cons a rs)
  from Cons.prems(1) obtain others where
    others: "cleanImpactedResources rs obj = Inr others"
    by (auto split: if_splits option.splits sum.splits)
  show ?case
  proof (cases i)
    case 0
    with Cons.prems show ?thesis
      by (auto split: if_splits option.splits sum.splits)
  next
    case (Suc j)
    with Cons.prems have j: "j < length rs" "K8SOperation (rs ! j) = PatchOperation"
      by simp_all
    from Cons.IH[OF others j] Suc show ?thesis by simp
  qed
qed

text \<open>
  Claim C3. When an action script returns a table, the encoded text decides the format.
  The encoder renders a table as an array or an object text, never shorter than two
  characters. For such a text: when its first character is \<^verbatim>\<open>[\<close> and its last is \<^verbatim>\<open>]\<close>,
  the result is the new-style decoding of the text as a list of resource and operation
  pairs, cleaned, with the operations as decoded; otherwise the result is the legacy
  decoding of the text as one object, wrapped as the single entry of a list, tagged with
  the patch operation and cleaned. A text shorter than two characters is refused before
  the decision.
\<close>

theorem action_output_format_is_sniffed:
  "(runLuaWithResourceActionParameters rt vm obj script params = Inr (LTable t) \<and>
    luajsonEncode rt t = Inr jsonString \<and> 2 \<le> length jsonString \<and>
    hd jsonString = CHR ''['' \<and> last jsonString = CHR '']''
      \<longrightarrow> ExecuteResourceAction rt vm obj script params =
            (case UnmarshalToImpactedResources rt jsonString of
               Inl err \<Rightarrow> Inl err
             | Inr impactedResources \<Rightarrow> cleanImpactedResources impactedResources obj)
          \<and> (\<forall>decoded result. UnmarshalToImpactedResources rt jsonString = Inr decoded \<and>
                ExecuteResourceAction rt vm obj script params = Inr result
                \<longrightarrow> map K8SOperation result = map K8SOperation decoded))
   \<and> (runLuaWithResourceActionParameters rt vm obj script params = Inr (LTable t) \<and>
      luajsonEncode rt t = Inr jsonString \<and> 2 \<le> length jsonString \<and>
      \<not> (hd jsonString = CHR ''['' \<and> last jsonString = CHR '']'')
      \<longrightarrow> ExecuteResourceAction rt vm obj script params =
            (case unmarshalToUnstructured rt jsonString of
               Inl err \<Rightarrow> Inl err
             | Inr newObj \<Rightarrow>
                 cleanImpactedResources
                   [\<lparr>UnstructuredObj = newObj, K8SOperation = PatchOperation\<rparr>] obj)
          \<and> (\<forall>result. ExecuteResourceAction rt vm obj script params = Inr result
                \<longrightarrow> (\<exists>decoded cleaned.
                       unmarshalToUnstructured rt jsonString = Inr (Some decoded) \<and>
                       cleanReturnedObj decoded obj = Inr cleaned \<and>
                       result = [\<lparr>UnstructuredObj = Some cleaned,
                                  K8SOperation = PatchOperation\<rparr>])))
   \<and> (runLuaWithResourceActionParameters rt vm obj script params = Inr (LTable t) \<and>
      luajsonEncode rt t = Inr jsonString \<and> length jsonString < 2
      \<longrightarrow> ExecuteResourceAction rt vm obj script params =
            Inl (ErrorString ''Lua output was not a valid json object or array''))"
proof (intro conjI impI allI)
  assume a: "runLuaWithResourceActionParameters rt vm obj script params = Inr (LTable t) \<and>
    luajsonEncode rt t = Inr jsonString \<and> 2 \<le> length jsonString \<and>
    hd jsonString = CHR ''['' \<and> last jsonString = CHR '']''"
  then have ne: "jsonString \<noteq> []" by auto
  from ne have first: "jsonString ! 0 = hd jsonString" by (simp add: hd_conv_nth)
  from ne have final: "jsonString ! (length jsonString - 1) = last jsonString"
    by (simp add: last_conv_nth)
  from a first final
  show eq: "ExecuteResourceAction rt vm obj script params =
            (case UnmarshalToImpactedResources rt jsonString of
               Inl err \<Rightarrow> Inl err
             | Inr impactedResources \<Rightarrow> cleanImpactedResources impactedResources obj)"
    by (simp add: ExecuteResourceAction_def)
  fix decoded result
  assume "UnmarshalToImpactedResources rt jsonString = Inr decoded \<and>
                ExecuteResourceAction rt vm obj script params = Inr result"
  with eq have c: "cleanImpactedResources decoded obj = Inr result" by simp
  show "map K8SOperation result = map K8SOperation decoded"
  proof (rule nth_equalityI)
    from cleanImpactedResources_length[OF c]
    show "length (map K8SOperation result) = length (map K8SOperation decoded)" by simp
  next
    fix i assume "i < length (map K8SOperation result)"
    with cleanImpactedResources_length[OF c] have i: "i < length decoded" by simp
    show "map K8SOperation result ! i = map K8SOperation decoded ! i"
    proof (cases "K8SOperation (decoded ! i) = PatchOperation")
      case True
      from c i True have "UnstructuredObj (decoded ! i) \<noteq> None"
        by (rule cleanImpactedResources_patch_object)
      then obtain newObj where "UnstructuredObj (decoded ! i) = Some newObj" by auto
      from cleanImpactedResources_patch[OF c i True this] i
        cleanImpactedResources_length[OF c]
      show ?thesis by auto
    next
      case False
      from cleanImpactedResources_other[OF c i False] i cleanImpactedResources_length[OF c]
      show ?thesis by simp
    qed
  qed
next
  assume a: "runLuaWithResourceActionParameters rt vm obj script params = Inr (LTable t) \<and>
      luajsonEncode rt t = Inr jsonString \<and> 2 \<le> length jsonString \<and>
      \<not> (hd jsonString = CHR ''['' \<and> last jsonString = CHR '']'')"
  then have ne: "jsonString \<noteq> []" by auto
  from ne have first: "jsonString ! 0 = hd jsonString" by (simp add: hd_conv_nth)
  from ne have final: "jsonString ! (length jsonString - 1) = last jsonString"
    by (simp add: last_conv_nth)
  from a first final
  show eq: "ExecuteResourceAction rt vm obj script params =
            (case unmarshalToUnstructured rt jsonString of
               Inl err \<Rightarrow> Inl err
             | Inr newObj \<Rightarrow>
                 cleanImpactedResources
                   [\<lparr>UnstructuredObj = newObj, K8SOperation = PatchOperation\<rparr>] obj)"
    by (auto simp: ExecuteResourceAction_def split: sum.splits)
  fix result
  assume "ExecuteResourceAction rt vm obj script params = Inr result"
  with eq show "\<exists>decoded cleaned.
                       unmarshalToUnstructured rt jsonString = Inr (Some decoded) \<and>
                       cleanReturnedObj decoded obj = Inr cleaned \<and>
                       result = [\<lparr>UnstructuredObj = Some cleaned,
                                  K8SOperation = PatchOperation\<rparr>]"
    by (auto split: sum.splits option.splits)
next
  assume "runLuaWithResourceActionParameters rt vm obj script params = Inr (LTable t) \<and>
      luajsonEncode rt t = Inr jsonString \<and> length jsonString < 2"
  then show "ExecuteResourceAction rt vm obj script params =
            Inl (ErrorString ''Lua output was not a valid json object or array'')"
    by (simp add: ExecuteResourceAction_def)
qed

theorem action_output_format_is_sniffed_witness:
  "ExecuteResourceAction
     (nullRuntime
        \<lparr>doString := (\<lambda>useOpenLibs obj params script.
           Inr (LTable ''[{\"operation\":\"create\",\"resource\":{\"kind\":\"Job\"}}]'')),
         unmarshalImpactedResources := (\<lambda>text.
           Inr [\<lparr>UnstructuredObj = Some [(''kind'', JStr ''Job'')],
                 K8SOperation = CreateOperation\<rparr>])\<rparr>)
     \<lparr>ResourceOverrides = [], vmUseOpenLibs = False\<rparr> [(''spec'', JMap [])] ''return jobs'' []
   = Inr [\<lparr>UnstructuredObj = Some [(''kind'', JStr ''Job'')], K8SOperation = CreateOperation\<rparr>]
   \<and> ExecuteResourceAction
     (nullRuntime
        \<lparr>doString := (\<lambda>useOpenLibs obj params script. Inr (LTable ''{\"spec\":[]}'')),
         unmarshalToUnstructured := (\<lambda>text. Inr (Some [(''spec'', JList [])]))\<rparr>)
     \<lparr>ResourceOverrides = [], vmUseOpenLibs = False\<rparr> [(''spec'', JMap [])] ''return obj'' []
   = Inr [\<lparr>UnstructuredObj = Some [(''spec'', JMap [])], K8SOperation = PatchOperation\<rparr>]
   \<and> ExecuteResourceAction
     (nullRuntime\<lparr>doString := (\<lambda>useOpenLibs obj params script. Inr (LTable ''['')),
                   luajsonEncode := (\<lambda>t. Inr t)\<rparr>)
     \<lparr>ResourceOverrides = [], vmUseOpenLibs = False\<rparr> [(''spec'', JMap [])] ''return obj'' []
   = Inl (ErrorString ''Lua output was not a valid json object or array'')"
proof -
  let ?vm = "\<lparr>ResourceOverrides = [], vmUseOpenLibs = False\<rparr>"
  let ?new = "''[{\"operation\":\"create\",\"resource\":{\"kind\":\"Job\"}}]''"
  let ?rtNew = "nullRuntime
        \<lparr>doString := (\<lambda>useOpenLibs obj params script. Inr (LTable ?new)),
         unmarshalImpactedResources := (\<lambda>text.
           Inr [\<lparr>UnstructuredObj = Some [(''kind'', JStr ''Job'')],
                 K8SOperation = CreateOperation\<rparr>])\<rparr>"
  let ?old = "''{\"spec\":[]}''"
  let ?rtOld = "nullRuntime
        \<lparr>doString := (\<lambda>useOpenLibs obj params script. Inr (LTable ?old)),
         unmarshalToUnstructured := (\<lambda>text. Inr (Some [(''spec'', JList [])]))\<rparr>"
  let ?rtShort = "nullRuntime\<lparr>doString := (\<lambda>useOpenLibs obj params script. Inr (LTable ''['')),
                   luajsonEncode := (\<lambda>t. Inr t)\<rparr>"
  have ha: "runLuaWithResourceActionParameters ?rtNew ?vm [(''spec'', JMap [])]
        ''return jobs'' [] = Inr (LTable ?new) \<and>
      luajsonEncode ?rtNew ?new = Inr ?new \<and> 2 \<le> length ?new \<and>
      hd ?new = CHR ''['' \<and> last ?new = CHR '']''"
    by (simp add: nullRuntime_def runLuaWithResourceActionParameters_def)
  have a: "ExecuteResourceAction ?rtNew ?vm [(''spec'', JMap [])] ''return jobs'' []
      = Inr [\<lparr>UnstructuredObj = Some [(''kind'', JStr ''Job'')],
              K8SOperation = CreateOperation\<rparr>]"
    using action_output_format_is_sniffed
      [of ?rtNew ?vm "[(''spec'', JMap [])]" "''return jobs''" "[]" ?new ?new,
       THEN conjunct1, THEN mp, OF ha, THEN conjunct1]
    by (simp add: nullRuntime_def UnmarshalToImpactedResources_def)
  have hb: "runLuaWithResourceActionParameters ?rtOld ?vm [(''spec'', JMap [])]
        ''return obj'' [] = Inr (LTable ?old) \<and>
      luajsonEncode ?rtOld ?old = Inr ?old \<and> 2 \<le> length ?old \<and>
      \<not> (hd ?old = CHR ''['' \<and> last ?old = CHR '']'')"
    by (simp add: nullRuntime_def runLuaWithResourceActionParameters_def)
  have b: "ExecuteResourceAction ?rtOld ?vm [(''spec'', JMap [])] ''return obj'' []
      = Inr [\<lparr>UnstructuredObj = Some [(''spec'', JMap [])], K8SOperation = PatchOperation\<rparr>]"
    using action_output_format_is_sniffed
      [of ?rtOld ?vm "[(''spec'', JMap [])]" "''return obj''" "[]" ?old ?old,
       THEN conjunct2, THEN conjunct1, THEN mp, OF hb, THEN conjunct1]
    by (simp add: nullRuntime_def cleanReturnedObj.simps cleanObjRange.simps mapKeys_def)
  have hc: "runLuaWithResourceActionParameters ?rtShort ?vm [(''spec'', JMap [])]
        ''return obj'' [] = Inr (LTable ''['') \<and>
      luajsonEncode ?rtShort ''['' = Inr ''['' \<and> length ''['' < 2"
    by (simp add: nullRuntime_def runLuaWithResourceActionParameters_def)
  have c: "ExecuteResourceAction ?rtShort ?vm [(''spec'', JMap [])] ''return obj'' []
      = Inl (ErrorString ''Lua output was not a valid json object or array'')"
    using action_output_format_is_sniffed
      [of ?rtShort ?vm "[(''spec'', JMap [])]" "''return obj''" "[]" "''[''" "''[''",
       THEN conjunct2, THEN conjunct2, THEN mp, OF hc]
    by simp
  from a b c show ?thesis by (intro conjI)
qed

section \<open>Properties of script resolution\<close>

lemma mapEntries_iff: "(k, v) \<in> set (mapEntries m) \<longleftrightarrow> map_of m k = Some v"
proof -
  have "(k, v) \<in> set (AList.clearjunk m) \<longleftrightarrow> map_of (AList.clearjunk m) k = Some v"
    by (simp add: map_of_eq_Some_iff)
  then show ?thesis by (simp add: mapEntries_def map_of_clearjunk)
qed

lemma wildcardOverrideRange_none:
  "(\<forall>(k, ov) \<in> set es. \<not> (globMatch rt k key \<and> HealthLua ov \<noteq> [])) \<Longrightarrow>
   wildcardOverrideRange rt es key = ([], False)"
  by (induction es) auto

lemma wildcardOverrideRange_some:
  "\<exists>(k, ov) \<in> set es. globMatch rt k key \<and> HealthLua ov \<noteq> [] \<Longrightarrow>
   \<exists>(k, ov) \<in> set es. globMatch rt k key \<and> HealthLua ov \<noteq> [] \<and>
      wildcardOverrideRange rt es key = (HealthLua ov, UseOpenLibs ov)"
proof (induction es)
  case Nil
  then show ?case by simp
next
  case (Cons e es)
  obtain k ov where e: "e = (k, ov)" by (cases e)
  show ?case
  proof (cases "globMatch rt k key \<and> HealthLua ov \<noteq> []")
    case True
    with e show ?thesis by auto
  next
    case False
    with Cons.prems e have "\<exists>(k, ov) \<in> set es. globMatch rt k key \<and> HealthLua ov \<noteq> []"
      by auto
    from Cons.IH[OF this] False e show ?thesis by auto
  qed
qed

lemma globsRange_none:
  "(\<forall>g \<in> set globs. \<not> pathMatchUnvalidated rt (underscoresToStars g) objKey) \<Longrightarrow>
   globsRange rt globs objKey = Inr []"
  by (induction globs) (auto simp: Let_def)

lemma globsRange_first:
  "sorted globs \<Longrightarrow> g \<in> set globs \<Longrightarrow>
   pathMatchUnvalidated rt (underscoresToStars g) objKey \<Longrightarrow>
   (\<forall>g' \<in> set globs. pathMatchUnvalidated rt (underscoresToStars g') objKey \<longrightarrow> g \<le> g') \<Longrightarrow>
   embeddedReadFile rt (filepathJoin rt g healthScriptFile) = FileData script \<Longrightarrow>
   globsRange rt globs objKey = Inr script"
proof (induction globs)
  case Nil
  then show ?case by simp
next
  case (Cons x xs)
  show ?case
  proof (cases "pathMatchUnvalidated rt (underscoresToStars x) objKey")
    case True
    with Cons.prems(4) have "g \<le> x" by simp
    moreover from Cons.prems(1,2) have "x \<le> g" by auto
    ultimately have "x = g" by simp
    with True Cons.prems(5) show ?thesis by (simp add: Let_def)
  next
    case False
    with Cons.prems(3) have "g \<noteq> x" by auto
    with Cons.prems(2) have mem: "g \<in> set xs" by simp
    from Cons.prems(1) have "sorted xs" by simp
    from Cons.IH[OF this mem Cons.prems(3) _ Cons.prems(5)] Cons.prems(4) False
    show ?thesis by (simp add: Let_def)
  qed
qed

lemma getGlobHealthScriptPaths_index:
  assumes "walkRange rt (embeddedWalk rt) [] = Inr patterns"
    and "onceDone st \<longrightarrow> globHealthScriptPaths st = sort patterns"
  shows "fst (getGlobHealthScriptPaths rt st) = Inr (sort patterns)"
    and "onceDone (snd (getGlobHealthScriptPaths rt st))"
    and "globHealthScriptPaths (snd (getGlobHealthScriptPaths rt st)) = sort patterns"
  using assms by (auto simp: getGlobHealthScriptPaths_def)

lemma getWildcardBuiltIn_index:
  assumes "walkRange rt (embeddedWalk rt) [] = Inr patterns"
    and "onceDone st \<longrightarrow> globHealthScriptPaths st = sort patterns"
  shows "fst (getWildcardBuiltInHealthOverrideLua rt st objKey) =
           globsRange rt (sort patterns) objKey"
    and "onceDone (snd (getWildcardBuiltInHealthOverrideLua rt st objKey))"
    and "globHealthScriptPaths (snd (getWildcardBuiltInHealthOverrideLua rt st objKey)) =
           sort patterns"
  using getGlobHealthScriptPaths_index[OF assms]
  by (auto simp: getWildcardBuiltInHealthOverrideLua_def split: prod.splits sum.splits)

lemma GetHealthScript_exact:
  "map_of (ResourceOverrides vm) (GetConfigMapKey gvk) = Some ov \<Longrightarrow> HealthLua ov \<noteq> [] \<Longrightarrow>
   GetHealthScript rt vm st gvk = (Inr (HealthLua ov, UseOpenLibs ov), st)"
  by (simp add: GetHealthScript_def)

lemma GetHealthScript_not_exact:
  "\<not> exactOverride vm gvk \<Longrightarrow>
   GetHealthScript rt vm st gvk =
     (case getWildcardHealthOverrideLua rt (ResourceOverrides vm) gvk of
        (getWildcardHealthOverride, useOpenLibs) \<Rightarrow>
          if getWildcardHealthOverride \<noteq> []
          then (Inr (getWildcardHealthOverride, useOpenLibs), st)
          else (case getPredefinedLuaScripts rt (GetConfigMapKey gvk) healthScriptFile of
                  Inl err \<Rightarrow>
                    (if isErrScriptDoesNotExist err
                     then (case getWildcardBuiltInHealthOverrideLua rt st (GetConfigMapKey gvk) of
                             (Inl err', st') \<Rightarrow>
                               (Inl (Wrapf ''error while fetching built-in health script''
                                       err'), st')
                           | (Inr builtInScript, st') \<Rightarrow>
                               (if builtInScript \<noteq> []
                                then (Inr (builtInScript, True), st')
                                else (Inr ([], False), st')))
                     else (Inl err, st))
                | Inr builtInScript \<Rightarrow> (Inr (builtInScript, True), st)))"
  by (auto simp: GetHealthScript_def exactOverride_def Let_def split: option.splits)

lemma wildcard_found:
  assumes "wildcardOverride rt vm gvk"
  shows "\<exists>k ov. map_of (ResourceOverrides vm) k = Some ov \<and>
           globMatch rt k (GetConfigMapKey gvk) \<and> HealthLua ov \<noteq> [] \<and>
           getWildcardHealthOverrideLua rt (ResourceOverrides vm) gvk =
             (HealthLua ov, UseOpenLibs ov)"
proof -
  from assms have "\<exists>(k, ov) \<in> set (mapEntries (ResourceOverrides vm)).
      globMatch rt k (GetConfigMapKey gvk) \<and> HealthLua ov \<noteq> []"
    by (auto simp: wildcardOverride_def list_ex_iff)
  from wildcardOverrideRange_some[OF this] show ?thesis
    by (fastforce simp: getWildcardHealthOverrideLua_def mapEntries_iff)
qed

lemma wildcard_not_found:
  assumes "\<not> wildcardOverride rt vm gvk"
  shows "getWildcardHealthOverrideLua rt (ResourceOverrides vm) gvk = ([], False)"
proof -
  from assms have "\<forall>(k, ov) \<in> set (mapEntries (ResourceOverrides vm)).
      \<not> (globMatch rt k (GetConfigMapKey gvk) \<and> HealthLua ov \<noteq> [])"
    by (auto simp: wildcardOverride_def list_ex_iff)
  from wildcardOverrideRange_none[OF this] show ?thesis
    by (simp add: getWildcardHealthOverrideLua_def)
qed


text \<open>
  Claim C2. Health-script resolution follows the precedence, for every group, version and
  kind and every overrides mapping:
  \<^enum> an override stored under the resource key itself with a non-empty health script is
    returned, with its own library-surface flag;
  \<^enum> otherwise, when some override's key glob-matches the resource key and its health
    script is not empty, the script and flag of one such override are returned;
  \<^enum> otherwise, when the catalog has a health script under the resource key itself, that
    script is returned with the flag set;
  \<^enum> otherwise, when the catalog has none there and the walk that builds the pattern index
    succeeds (the index being the sorted list of the wildcard directories, cached once),
    the script of the least matching entry of the index is returned, with the flag set
    when the script is not empty;
  \<^enum> and when no entry of the index matches, the empty script and no error are returned.
\<close>

theorem health_script_precedence:
  "(map_of (ResourceOverrides vm) (GetConfigMapKey gvk) = Some ov \<and> HealthLua ov \<noteq> []
      \<longrightarrow> fst (GetHealthScript rt vm st gvk) = Inr (HealthLua ov, UseOpenLibs ov))
   \<and> (\<not> exactOverride vm gvk \<and> wildcardOverride rt vm gvk
      \<longrightarrow> (\<exists>k w. map_of (ResourceOverrides vm) k = Some w \<and>
             globMatch rt k (GetConfigMapKey gvk) \<and> HealthLua w \<noteq> [] \<and>
             fst (GetHealthScript rt vm st gvk) = Inr (HealthLua w, UseOpenLibs w)))
   \<and> (\<not> exactOverride vm gvk \<and> \<not> wildcardOverride rt vm gvk \<and>
      embeddedReadFile rt (filepathJoin rt (GetConfigMapKey gvk) ''health.lua'')
        = FileData script
      \<longrightarrow> fst (GetHealthScript rt vm st gvk) = Inr (script, True))
   \<and> (\<not> exactOverride vm gvk \<and> \<not> wildcardOverride rt vm gvk \<and>
      embeddedReadFile rt (filepathJoin rt (GetConfigMapKey gvk) ''health.lua'') = NotExist \<and>
      walkRange rt (embeddedWalk rt) [] = Inr patterns \<and>
      (onceDone st \<longrightarrow> globHealthScriptPaths st = sort patterns)
      \<longrightarrow> onceDone (snd (GetHealthScript rt vm st gvk)) \<and>
          globHealthScriptPaths (snd (GetHealthScript rt vm st gvk)) = sort patterns \<and>
          (\<forall>g wscript.
             g \<in> set patterns \<and> builtInMatches rt gvk g \<and>
             (\<forall>g' \<in> set patterns. builtInMatches rt gvk g' \<longrightarrow> g \<le> g') \<and>
             embeddedReadFile rt (filepathJoin rt g ''health.lua'') = FileData wscript
             \<longrightarrow> fst (GetHealthScript rt vm st gvk) = Inr (wscript, wscript \<noteq> [])) \<and>
          ((\<forall>g \<in> set patterns. \<not> builtInMatches rt gvk g)
             \<longrightarrow> fst (GetHealthScript rt vm st gvk) = Inr ([], False)))"
proof (intro conjI impI)
  assume "map_of (ResourceOverrides vm) (GetConfigMapKey gvk) = Some ov \<and> HealthLua ov \<noteq> []"
  then show "fst (GetHealthScript rt vm st gvk) = Inr (HealthLua ov, UseOpenLibs ov)"
    by (simp add: GetHealthScript_exact)
next
  assume a: "\<not> exactOverride vm gvk \<and> wildcardOverride rt vm gvk"
  with wildcard_found[of rt vm gvk] obtain k w where
    w: "map_of (ResourceOverrides vm) k = Some w" "globMatch rt k (GetConfigMapKey gvk)"
       "HealthLua w \<noteq> []"
       "getWildcardHealthOverrideLua rt (ResourceOverrides vm) gvk =
          (HealthLua w, UseOpenLibs w)"
    by blast
  from a w(3,4) have "fst (GetHealthScript rt vm st gvk) = Inr (HealthLua w, UseOpenLibs w)"
    by (simp add: GetHealthScript_not_exact)
  with w(1-3) show "\<exists>k w. map_of (ResourceOverrides vm) k = Some w \<and>
             globMatch rt k (GetConfigMapKey gvk) \<and> HealthLua w \<noteq> [] \<and>
             fst (GetHealthScript rt vm st gvk) = Inr (HealthLua w, UseOpenLibs w)"
    by blast
next
  assume a: "\<not> exactOverride vm gvk \<and> \<not> wildcardOverride rt vm gvk \<and>
      embeddedReadFile rt (filepathJoin rt (GetConfigMapKey gvk) ''health.lua'')
        = FileData script"
  then show "fst (GetHealthScript rt vm st gvk) = Inr (script, True)"
    by (simp add: GetHealthScript_not_exact wildcard_not_found getPredefinedLuaScripts_def
          healthScriptFile_def)
next
  assume a: "\<not> exactOverride vm gvk \<and> \<not> wildcardOverride rt vm gvk \<and>
      embeddedReadFile rt (filepathJoin rt (GetConfigMapKey gvk) ''health.lua'') = NotExist \<and>
      walkRange rt (embeddedWalk rt) [] = Inr patterns \<and>
      (onceDone st \<longrightarrow> globHealthScriptPaths st = sort patterns)"
  let ?w = "getWildcardBuiltInHealthOverrideLua rt st (GetConfigMapKey gvk)"
  from a have walk: "walkRange rt (embeddedWalk rt) [] = Inr patterns"
    and inv: "onceDone st \<longrightarrow> globHealthScriptPaths st = sort patterns" by simp_all
  note idx = getWildcardBuiltIn_index[OF walk inv, of "GetConfigMapKey gvk"]
  from a have run: "GetHealthScript rt vm st gvk =
      (case ?w of
         (Inl err', st') \<Rightarrow>
           (Inl (Wrapf ''error while fetching built-in health script'' err'), st')
       | (Inr builtInScript, st') \<Rightarrow>
           (if builtInScript \<noteq> [] then (Inr (builtInScript, True), st')
            else (Inr ([], False), st')))"
    by (simp add: GetHealthScript_not_exact wildcard_not_found getPredefinedLuaScripts_def
          healthScriptFile_def)
  then have st: "snd (GetHealthScript rt vm st gvk) = snd ?w"
    by (auto split: prod.splits sum.splits)
  from st idx(2) show "onceDone (snd (GetHealthScript rt vm st gvk))" by simp
  from st idx(3) show "globHealthScriptPaths (snd (GetHealthScript rt vm st gvk)) = sort patterns"
    by simp
  have res: "fst (GetHealthScript rt vm st gvk) = Inr (s, s \<noteq> [])"
    if "globsRange rt (sort patterns) (GetConfigMapKey gvk) = Inr s" for s
    using that run idx(1) by (cases ?w) (auto split: sum.splits)
  show "\<forall>g wscript.
             g \<in> set patterns \<and> builtInMatches rt gvk g \<and>
             (\<forall>g' \<in> set patterns. builtInMatches rt gvk g' \<longrightarrow> g \<le> g') \<and>
             embeddedReadFile rt (filepathJoin rt g ''health.lua'') = FileData wscript
             \<longrightarrow> fst (GetHealthScript rt vm st gvk) = Inr (wscript, wscript \<noteq> [])"
  proof (intro allI impI)
    fix g wscript
    assume g: "g \<in> set patterns \<and> builtInMatches rt gvk g \<and>
             (\<forall>g' \<in> set patterns. builtInMatches rt gvk g' \<longrightarrow> g \<le> g') \<and>
             embeddedReadFile rt (filepathJoin rt g ''health.lua'') = FileData wscript"
    have "globsRange rt (sort patterns) (GetConfigMapKey gvk) = Inr wscript"
      by (rule globsRange_first[of _ g])
         (use g in \<open>simp_all add: builtInMatches_def healthScriptFile_def\<close>)
    from res[OF this] show "fst (GetHealthScript rt vm st gvk) = Inr (wscript, wscript \<noteq> [])" .
  qed
  show "fst (GetHealthScript rt vm st gvk) = Inr ([], False)"
    if "\<forall>g \<in> set patterns. \<not> builtInMatches rt gvk g"
  proof -
    have "globsRange rt (sort patterns) (GetConfigMapKey gvk) = Inr []"
      by (rule globsRange_none) (use that in \<open>simp add: builtInMatches_def\<close>)
    from res[OF this] show ?thesis by simp
  qed
qed

lemma resolverDemo_walk:
  "walkRange resolverDemo (embeddedWalk resolverDemo) [] = Inr [''_/_'', ''_.crossplane.io/_'']"
  by (simp add: resolverDemo_def nullRuntime_def filepathDir_def filepathBase_def
        healthScriptFile_def containsUnderscore_def underscoresToStars_def Let_def)

theorem health_script_precedence_witness:
  "fst (GetHealthScript resolverDemo resolverDemoVM
          \<lparr>onceDone = False, globHealthScriptPaths = []\<rparr>
          \<lparr>Group = ''apps'', Version = ''v1'', Kind = ''Deployment''\<rparr>)
     = Inr (''return deployment'', False)
   \<and> (\<exists>k w. map_of (ResourceOverrides resolverDemoVM) k = Some w \<and>
        globMatch resolverDemo k ''db.example.io/Cluster'' \<and> HealthLua w \<noteq> [] \<and>
        fst (GetHealthScript resolverDemo resolverDemoVM
               \<lparr>onceDone = False, globHealthScriptPaths = []\<rparr>
               \<lparr>Group = ''db.example.io'', Version = ''v1'', Kind = ''Cluster''\<rparr>)
          = Inr (HealthLua w, UseOpenLibs w))
   \<and> fst (GetHealthScript resolverDemo resolverDemoVM
          \<lparr>onceDone = False, globHealthScriptPaths = []\<rparr>
          \<lparr>Group = ''batch'', Version = ''v1'', Kind = ''Job''\<rparr>)
     = Inr (''return job'', True)
   \<and> fst (GetHealthScript resolverDemo resolverDemoVM
          \<lparr>onceDone = False, globHealthScriptPaths = []\<rparr>
          \<lparr>Group = ''pkg.crossplane.io'', Version = ''v1'', Kind = ''Provider''\<rparr>)
     = Inr (''return crossplane'', True)
   \<and> globHealthScriptPaths
       (snd (GetHealthScript resolverDemo resolverDemoVM
          \<lparr>onceDone = False, globHealthScriptPaths = []\<rparr>
          \<lparr>Group = ''pkg.crossplane.io'', Version = ''v1'', Kind = ''Provider''\<rparr>))
     = [''_.crossplane.io/_'', ''_/_'']
   \<and> fst (GetHealthScript resolverDemo resolverDemoVM
          \<lparr>onceDone = False, globHealthScriptPaths = []\<rparr>
          \<lparr>Group = [], Version = ''v1'', Kind = ''ConfigMap''\<rparr>)
     = Inr ([], False)"
proof -
  let ?st = "\<lparr>onceDone = False, globHealthScriptPaths = []\<rparr>"
  let ?deployment = "\<lparr>Group = ''apps'', Version = ''v1'', Kind = ''Deployment''\<rparr>"
  let ?cluster = "\<lparr>Group = ''db.example.io'', Version = ''v1'', Kind = ''Cluster''\<rparr>"
  let ?job = "\<lparr>Group = ''batch'', Version = ''v1'', Kind = ''Job''\<rparr>"
  let ?provider = "\<lparr>Group = ''pkg.crossplane.io'', Version = ''v1'', Kind = ''Provider''\<rparr>"
  let ?configmap = "\<lparr>Group = [], Version = ''v1'', Kind = ''ConfigMap''\<rparr>"
  let ?patterns = "[''_/_'', ''_.crossplane.io/_'']"
  note ev = resolverDemo_def resolverDemoVM_def nullRuntime_def GetConfigMapKey_def
    exactOverride_def wildcardOverride_def builtInMatches_def mapEntries_def
    underscoresToStars_def
  have h1: "map_of (ResourceOverrides resolverDemoVM) (GetConfigMapKey ?deployment)
        = Some \<lparr>HealthLua = ''return deployment'', UseOpenLibs = False, Actions = []\<rparr> \<and>
      HealthLua \<lparr>HealthLua = ''return deployment'', UseOpenLibs = False, Actions = []\<rparr> \<noteq> []"
    by (simp add: ev)
  have c1: "fst (GetHealthScript resolverDemo resolverDemoVM ?st ?deployment)
      = Inr (''return deployment'', False)"
    using health_script_precedence
      [of resolverDemoVM ?deployment
          "\<lparr>HealthLua = ''return deployment'', UseOpenLibs = False, Actions = []\<rparr>"
          resolverDemo ?st "[]" ?patterns,
       THEN conjunct1, THEN mp, OF h1]
    by simp
  have h2: "\<not> exactOverride resolverDemoVM ?cluster \<and>
      wildcardOverride resolverDemo resolverDemoVM ?cluster"
    by (simp add: ev)
  have c2: "\<exists>k w. map_of (ResourceOverrides resolverDemoVM) k = Some w \<and>
        globMatch resolverDemo k ''db.example.io/Cluster'' \<and> HealthLua w \<noteq> [] \<and>
        fst (GetHealthScript resolverDemo resolverDemoVM ?st ?cluster)
          = Inr (HealthLua w, UseOpenLibs w)"
    using health_script_precedence
      [of resolverDemoVM ?cluster _ resolverDemo ?st "[]" ?patterns,
       THEN conjunct2, THEN conjunct1, THEN mp, OF h2]
    by (simp add: GetConfigMapKey_def)
  have h3: "\<not> exactOverride resolverDemoVM ?job \<and>
      \<not> wildcardOverride resolverDemo resolverDemoVM ?job \<and>
      embeddedReadFile resolverDemo
        (filepathJoin resolverDemo (GetConfigMapKey ?job) ''health.lua'')
        = FileData ''return job''"
    by (simp add: ev)
  have c3: "fst (GetHealthScript resolverDemo resolverDemoVM ?st ?job)
      = Inr (''return job'', True)"
    using health_script_precedence
      [of resolverDemoVM ?job _ resolverDemo ?st "''return job''" ?patterns,
       THEN conjunct2, THEN conjunct2, THEN conjunct1, THEN mp, OF h3] .
  have h4a: "\<not> exactOverride resolverDemoVM ?provider \<and>
      \<not> wildcardOverride resolverDemo resolverDemoVM ?provider \<and>
      embeddedReadFile resolverDemo
        (filepathJoin resolverDemo (GetConfigMapKey ?provider) ''health.lua'') = NotExist"
    by (simp add: ev)
  from h4a resolverDemo_walk
  have h4: "\<not> exactOverride resolverDemoVM ?provider \<and>
      \<not> wildcardOverride resolverDemo resolverDemoVM ?provider \<and>
      embeddedReadFile resolverDemo
        (filepathJoin resolverDemo (GetConfigMapKey ?provider) ''health.lua'') = NotExist \<and>
      walkRange resolverDemo (embeddedWalk resolverDemo) [] = Inr ?patterns \<and>
      (onceDone ?st \<longrightarrow> globHealthScriptPaths ?st = sort ?patterns)"
    by simp
  note r4 = health_script_precedence
      [of resolverDemoVM ?provider _ resolverDemo ?st "[]" ?patterns,
       THEN conjunct2, THEN conjunct2, THEN conjunct2, THEN mp, OF h4]
  have g4: "''_.crossplane.io/_'' \<in> set ?patterns \<and>
      builtInMatches resolverDemo ?provider ''_.crossplane.io/_'' \<and>
      (\<forall>g' \<in> set ?patterns. builtInMatches resolverDemo ?provider g'
         \<longrightarrow> ''_.crossplane.io/_'' \<le> g') \<and>
      embeddedReadFile resolverDemo (filepathJoin resolverDemo ''_.crossplane.io/_'' ''health.lua'')
        = FileData ''return crossplane''"
    by (simp add: ev)
  from r4[THEN conjunct2, THEN conjunct2, THEN conjunct1, THEN spec, THEN spec, THEN mp, OF g4]
  have c4: "fst (GetHealthScript resolverDemo resolverDemoVM ?st ?provider)
      = Inr (''return crossplane'', True)"
    by simp
  from r4[THEN conjunct2, THEN conjunct1]
  have c4': "globHealthScriptPaths (snd (GetHealthScript resolverDemo resolverDemoVM ?st ?provider))
      = [''_.crossplane.io/_'', ''_/_'']"
    by simp
  have h5a: "\<not> exactOverride resolverDemoVM ?configmap \<and>
      \<not> wildcardOverride resolverDemo resolverDemoVM ?configmap \<and>
      embeddedReadFile resolverDemo
        (filepathJoin resolverDemo (GetConfigMapKey ?configmap) ''health.lua'') = NotExist"
    by (simp add: ev)
  from h5a resolverDemo_walk
  have h5: "\<not> exactOverride resolverDemoVM ?configmap \<and>
      \<not> wildcardOverride resolverDemo resolverDemoVM ?configmap \<and>
      embeddedReadFile resolverDemo
        (filepathJoin resolverDemo (GetConfigMapKey ?configmap) ''health.lua'') = NotExist \<and>
      walkRange resolverDemo (embeddedWalk resolverDemo) [] = Inr ?patterns \<and>
      (onceDone ?st \<longrightarrow> globHealthScriptPaths ?st = sort ?patterns)"
    by simp
  note r5 = health_script_precedence
      [of resolverDemoVM ?configmap _ resolverDemo ?st "[]" ?patterns,
       THEN conjunct2, THEN conjunct2, THEN conjunct2, THEN mp, OF h5]
  have g5: "\<forall>g \<in> set ?patterns. \<not> builtInMatches resolverDemo ?configmap g"
    by (simp add: ev)
  from r5[THEN conjunct2, THEN conjunct2, THEN conjunct2, THEN mp, OF g5]
  have c5: "fst (GetHealthScript resolverDemo resolverDemoVM ?st ?configmap) = Inr ([], False)" .
  from c1 c2 c3 c4 c4' c5 show ?thesis by (intro conjI)
qed

end
